theory Spec2Isabelle
  imports Complex_Main "HOL-Library.Word"
begin

section \<open>Numbers, errors\<close>

text \<open>
  JavaScript numbers are modelled as reals: arithmetic is exact, and the rounding of
  IEEE doubles (and of the store into a \<^verbatim>\<open>Float32Array\<close>) is outside the model.
  The non-finite values that the code can produce from real inputs (a division by
  zero) are written out as branches where they arise.
\<close>

datatype js_error =
    RangeError          \<comment> \<open>invalid typed array length\<close>
  | NotSupportedError   \<comment> \<open>\<^verbatim>\<open>createBuffer\<close> with a zero length or an unsupported rate\<close>
  | NotAllowedError     \<comment> \<open>\<^verbatim>\<open>getUserMedia\<close>: permission denied\<close>
  | NotFoundError       \<comment> \<open>\<^verbatim>\<open>getUserMedia\<close>: no input device\<close>

definition CAPTURE_SAMPLE_RATE :: real where
  "CAPTURE_SAMPLE_RATE = 16000"

definition CAPTURE_BUFFER_SIZE :: nat where
  "CAPTURE_BUFFER_SIZE = 2048"

section \<open>usePersonaplexAudio.ts: downsample\<close>

text \<open>
  The body of the \<^verbatim>\<open>for\<close> loop of \<^verbatim>\<open>downsample\<close>, for the index \<open>i\<close>: the value stored
  into \<^verbatim>\<open>output[i]\<close>.
\<close>

definition interpolate :: "real list \<Rightarrow> real \<Rightarrow> nat \<Rightarrow> real" where
  "interpolate input ratio i =
     (let srcIndex = real i * ratio;
          srcIndexFloor = \<lfloor>srcIndex\<rfloor>;
          srcIndexCeil = min (srcIndexFloor + 1) (int (length input) - 1);
          frac = srcIndex - of_int srcIndexFloor
      in input ! nat srcIndexFloor * (1 - frac) + input ! nat srcIndexCeil * frac)"

text \<open>The loop \<^verbatim>\<open>for (let i = 0; i < outputLength; i++)\<close>, writing into \<open>output\<close>.\<close>

function downsample_loop :: "real list \<Rightarrow> real \<Rightarrow> nat \<Rightarrow> nat \<Rightarrow> real list \<Rightarrow> real list" where
  "downsample_loop input ratio outputLength i output =
     (if i < outputLength
      then downsample_loop input ratio outputLength (Suc i)
             (output[i := interpolate input ratio i])
      else output)"
  by pat_completeness auto
termination
  by (relation "measure (\<lambda>(input, ratio, outputLength, i, output). outputLength - i)") auto

declare downsample_loop.simps [simp del]

text \<open>
  \<^verbatim>\<open>downsample(input, sourceRate, targetRate)\<close>. With a positive ratio the length
  \<^verbatim>\<open>Math.floor(input.length / ratio)\<close> is a natural number and the loop runs. The other
  branches are what JavaScript does with the real inputs that remain:
  \<^item> \<open>targetRate = 0\<close>: the ratio is infinite or NaN, \<^verbatim>\<open>input.length / ratio\<close> is zero
    or NaN, and \<^verbatim>\<open>new Float32Array\<close> of either has length 0;
  \<^item> \<open>sourceRate = 0\<close>: the ratio is zero; a non-empty input gives the length
    \<open>\<plusminus>Infinity\<close>, which \<^verbatim>\<open>new Float32Array\<close> rejects with a RangeError, an empty input
    gives NaN, hence length 0;
  \<^item> a negative ratio: a non-empty input gives a negative length, a RangeError.

  A typed array has no greatest length here.
\<close>

definition downsample :: "real list \<Rightarrow> real \<Rightarrow> real \<Rightarrow> js_error + real list" where
  "downsample input sourceRate targetRate =
     (if targetRate = 0 then Inr []
      else
        let ratio = sourceRate / targetRate in
        if ratio = 0 then (if input = [] then Inr [] else Inl RangeError)
        else
          let outputLength = \<lfloor>real (length input) / ratio\<rfloor> in
          if outputLength < 0 then Inl RangeError
          else Inr (downsample_loop input ratio (nat outputLength) 0
                      (replicate (nat outputLength) 0)))"

section \<open>usePersonaplexSocket.ts\<close>

type_synonym byte = "8 word"

datatype PersonaplexConnectionStatus = Disconnected | Connecting | Connected | Error

text \<open>
  \<^verbatim>\<open>UsePersonaplexSocketOptions\<close>. The three callbacks are optional and are called as
  \<^verbatim>\<open>onConnect?.()\<close>: a field is \<open>True\<close> when the callback is given.
\<close>

record socket_options =
  uri :: string
  onMessage :: bool
  onConnect :: bool
  onDisconnect :: bool

text \<open>The calls that the hook makes to the callbacks it was given, oldest first.\<close>

datatype socket_callback = OnConnect | OnDisconnect | OnMessage "byte list"

datatype ready_state = CONNECTING | OPEN | CLOSING | CLOSED

text \<open>
  A \<^verbatim>\<open>WebSocket\<close> object: its \<^verbatim>\<open>readyState\<close>, the frames handed to its \<^verbatim>\<open>send\<close>
  (oldest first), and the options that the listeners added by \<^verbatim>\<open>connect\<close> closed over.
\<close>

record websocket =
  url :: string
  readyState :: ready_state
  sentFrames :: "byte list list"
  listeners :: socket_options

text \<open>
  The state of the hook: \<^verbatim>\<open>socketRef\<close>, \<^verbatim>\<open>status\<close> and \<^verbatim>\<open>errorMessage\<close> as in the
  source. \<open>sockets\<close> holds every \<^verbatim>\<open>WebSocket\<close> constructed so far; a socket is
  identified by its position there, so \<^verbatim>\<open>socketRef.current\<close> is \<open>None\<close> (null) or
  \<open>Some i\<close>.
\<close>

record socket_hook =
  sockets :: "websocket list"
  socketRef :: "nat option"
  status :: PersonaplexConnectionStatus
  errorMessage :: "string option"
  callbacks :: "socket_callback list"

definition initial_socket_hook :: socket_hook where
  "initial_socket_hook =
     \<lparr>sockets = [], socketRef = None, status = Disconnected, errorMessage = None,
      callbacks = []\<rparr>"

text \<open>
  \<^verbatim>\<open>socket.readyState\<close> of socket \<open>i\<close>. A reference is only ever made to a constructed
  socket; for a position outside the store the value is \<open>CLOSED\<close>.
\<close>

definition readyStateOf :: "socket_hook \<Rightarrow> nat \<Rightarrow> ready_state" where
  "readyStateOf s i = (if i < length (sockets s) then readyState (sockets s ! i) else CLOSED)"

definition setReadyState :: "nat \<Rightarrow> ready_state \<Rightarrow> socket_hook \<Rightarrow> socket_hook" where
  "setReadyState i r s =
     (if i < length (sockets s)
      then s\<lparr>sockets := (sockets s)[i := (sockets s ! i)\<lparr>readyState := r\<rparr>]\<rparr>
      else s)"

text \<open>
  \<^verbatim>\<open>WebSocket.close()\<close>: a connecting or open socket starts closing; on a closing or
  closed socket the call does nothing.
\<close>

definition socketClose :: "nat \<Rightarrow> socket_hook \<Rightarrow> socket_hook" where
  "socketClose i s =
     (if readyStateOf s i = CONNECTING \<or> readyStateOf s i = OPEN
      then setReadyState i CLOSING s else s)"

text \<open>\<^verbatim>\<open>WebSocket.send(data)\<close> on an open socket: the frame is handed to the channel.\<close>

definition socketSend :: "nat \<Rightarrow> byte list \<Rightarrow> socket_hook \<Rightarrow> socket_hook" where
  "socketSend i data s =
     (if i < length (sockets s)
      then s\<lparr>sockets := (sockets s)[i := (sockets s ! i)
                \<lparr>sentFrames := sentFrames (sockets s ! i) @ [data]\<rparr>]\<rparr>
      else s)"

definition notify :: "bool \<Rightarrow> socket_callback \<Rightarrow> socket_hook \<Rightarrow> socket_hook" where
  "notify given c s = (if given then s\<lparr>callbacks := callbacks s @ [c]\<rparr> else s)"

text \<open>
  \<^verbatim>\<open>connect\<close>. The URI is taken to be a valid WebSocket URL, so that the constructor
  returns a socket.
\<close>

definition connect :: "socket_options \<Rightarrow> socket_hook \<Rightarrow> socket_hook" where
  "connect opts s =
     (if (case socketRef s of None \<Rightarrow> False | Some i \<Rightarrow> readyStateOf s i = OPEN) then s
      else
        s\<lparr>status := Connecting,
          errorMessage := None,
          sockets := sockets s @
            [\<lparr>url = uri opts, readyState = CONNECTING, sentFrames = [], listeners = opts\<rparr>],
          socketRef := Some (length (sockets s))\<rparr>)"

text \<open>The four listeners that \<^verbatim>\<open>connect\<close> adds to the socket.\<close>

definition openListener :: "socket_options \<Rightarrow> socket_hook \<Rightarrow> socket_hook" where
  "openListener opts s = notify (onConnect opts) OnConnect (s\<lparr>status := Connected\<rparr>)"

definition closeListener :: "socket_options \<Rightarrow> socket_hook \<Rightarrow> socket_hook" where
  "closeListener opts s =
     notify (onDisconnect opts) OnDisconnect (s\<lparr>socketRef := None, status := Disconnected\<rparr>)"

definition errorListener :: "socket_options \<Rightarrow> socket_hook \<Rightarrow> socket_hook" where
  "errorListener opts s = s\<lparr>status := Error, errorMessage := Some ''Connection failed''\<rparr>"

datatype message_data = ArrayBuffer "byte list" | TextData string

definition messageListener :: "socket_options \<Rightarrow> message_data \<Rightarrow> socket_hook \<Rightarrow> socket_hook" where
  "messageListener opts data s =
     (case data of
        ArrayBuffer bytes \<Rightarrow> notify (onMessage opts) (OnMessage bytes) s
      | TextData _ \<Rightarrow> s)"

definition disconnect :: "socket_options \<Rightarrow> socket_hook \<Rightarrow> socket_hook" where
  "disconnect opts s =
     (let s1 = (case socketRef s of
                  Some i \<Rightarrow> (socketClose i s)\<lparr>socketRef := None\<rparr>
                | None \<Rightarrow> s)
      in notify (onDisconnect opts) OnDisconnect
           (s1\<lparr>status := Disconnected, errorMessage := None\<rparr>))"

definition send :: "byte list \<Rightarrow> socket_hook \<Rightarrow> bool \<times> socket_hook" where
  "send data s =
     (case socketRef s of
        None \<Rightarrow> (False, s)
      | Some socket \<Rightarrow>
          if readyStateOf s socket \<noteq> OPEN then (False, s)
          else (True, socketSend socket data s))"

definition isConnected :: "socket_hook \<Rightarrow> bool" where
  "isConnected s = (status s = Connected)"

text \<open>
  What happens to the hook, one event at a time: a call of \<^verbatim>\<open>connect\<close>, \<^verbatim>\<open>disconnect\<close>
  (each with the options of the render it comes from) or \<^verbatim>\<open>send\<close>, or an event that
  the browser dispatches on socket \<open>i\<close>. The browser opens a connecting socket, and sets
  a socket to \<open>CLOSED\<close> once, before it fires \<^verbatim>\<open>close\<close>, after an \<^verbatim>\<open>error\<close> event when
  the connection has failed; messages arrive on an open socket.
\<close>

datatype socket_event =
    CallConnect socket_options
  | CallDisconnect socket_options
  | CallSend "byte list"
  | OpenEvent nat
  | CloseEvent nat
  | FailEvent nat
  | MessageEvent nat message_data

definition listenersOf :: "socket_hook \<Rightarrow> nat \<Rightarrow> socket_options" where
  "listenersOf s i = listeners (sockets s ! i)"

fun socket_step :: "socket_hook \<Rightarrow> socket_event \<Rightarrow> socket_hook" where
  "socket_step s (CallConnect opts) = connect opts s"
| "socket_step s (CallDisconnect opts) = disconnect opts s"
| "socket_step s (CallSend data) = snd (send data s)"
| "socket_step s (OpenEvent i) =
     (if i < length (sockets s) \<and> readyStateOf s i = CONNECTING
      then openListener (listenersOf s i) (setReadyState i OPEN s) else s)"
| "socket_step s (CloseEvent i) =
     (if i < length (sockets s) \<and> readyStateOf s i \<noteq> CLOSED
      then closeListener (listenersOf s i) (setReadyState i CLOSED s) else s)"
| "socket_step s (FailEvent i) =
     (if i < length (sockets s) \<and> readyStateOf s i \<noteq> CLOSED
      then closeListener (listenersOf s i)
             (errorListener (listenersOf s i) (setReadyState i CLOSED s))
      else s)"
| "socket_step s (MessageEvent i data) =
     (if i < length (sockets s) \<and> readyStateOf s i = OPEN
      then messageListener (listenersOf s i) data s else s)"

definition socket_run :: "socket_event list \<Rightarrow> socket_hook \<Rightarrow> socket_hook" where
  "socket_run evs s = foldl socket_step s evs"

fun is_open_event :: "socket_event \<Rightarrow> bool" where
  "is_open_event (OpenEvent i) = True"
| "is_open_event _ = False"

fun is_disconnect_call :: "socket_event \<Rightarrow> bool" where
  "is_disconnect_call (CallDisconnect opts) = True"
| "is_disconnect_call _ = False"

section \<open>usePersonaplexAudio.ts: the hook\<close>

text \<open>
  \<^verbatim>\<open>UsePersonaplexAudioOptions\<close>. \<^verbatim>\<open>sendAudio\<close> is required; the two callbacks are
  optional (called as \<^verbatim>\<open>onUserSpeakingChange?.(v)\<close>), a field is \<open>True\<close> when the
  callback is given. \<open>isConnected_option\<close> is the option \<^verbatim>\<open>isConnected\<close>.
\<close>

record audio_options =
  isConnected_option :: bool
  onUserSpeakingChange :: bool
  onAiSpeakingChange :: bool

text \<open>
  A sample of a playback buffer. A 32-bit float that comes from the bytes of a frame is
  kept as its bit pattern; a sample computed from a 16-bit integer is the exact quotient
  (a multiple of \<open>1/32768\<close>, which a 32-bit float represents exactly).
\<close>

datatype pcm_sample = Float32Bits "32 word" | Exact real

text \<open>An \<^verbatim>\<open>AudioBuffer\<close> with one channel.\<close>

record audio_buffer =
  channelData :: "pcm_sample list"
  sampleRate :: real

definition duration :: "audio_buffer \<Rightarrow> real" where
  "duration b = real (length (channelData b)) / sampleRate b"

text \<open>
  \<^verbatim>\<open>ctx.createBuffer(1, length, sampleRate)\<close>: a zeroed buffer. The call throws a
  NotSupportedError for a length of zero and for a rate outside the range that the
  implementation supports; the model rejects the rates that no implementation
  supports, those that are not positive.
\<close>

definition createBuffer :: "nat \<Rightarrow> real \<Rightarrow> js_error + audio_buffer" where
  "createBuffer len rate =
     (if len = 0 \<or> rate \<le> 0 then Inl NotSupportedError
      else Inr \<lparr>channelData = replicate len (Exact 0), sampleRate = rate\<rparr>)"

text \<open>
  What the hook does to the world outside its own state, oldest first. Objects that the
  browser creates (contexts, streams, nodes) are identified by a number.
\<close>

datatype audio_effect =
    UserSpeakingChange bool                \<comment> \<open>\<^verbatim>\<open>onUserSpeakingChange(v)\<close>\<close>
  | AiSpeakingChange bool                  \<comment> \<open>\<^verbatim>\<open>onAiSpeakingChange(v)\<close>\<close>
  | ConsoleWarn string
  | ConsoleError string js_error
  | NewAudioContext nat
  | CloseAudioContext nat                  \<comment> \<open>\<^verbatim>\<open>ctx.close()\<close>\<close>
  | NewMediaStream nat                     \<comment> \<open>the stream that \<^verbatim>\<open>getUserMedia\<close> resolved to\<close>
  | StopTracks nat                         \<comment> \<open>every track of the stream stopped\<close>
  | NewNode nat nat                        \<comment> \<open>a node created on a context: context, node\<close>
  | DisconnectNode nat                     \<comment> \<open>\<^verbatim>\<open>node.disconnect()\<close>\<close>
  | SourceStart nat audio_buffer real      \<comment> \<open>\<^verbatim>\<open>source.start(startTime)\<close>: context, buffer, time\<close>
  | SendAudio "real list"                  \<comment> \<open>\<^verbatim>\<open>sendAudio\<close> with the downsampled block\<close>

datatype mic_permission = Unknown | Granted | Denied

text \<open>
  The refs and the React state of the hook, with the names of the source; \<open>effects\<close> is
  the trace above and \<open>nextHandle\<close> the number of the next object that the browser
  creates.
\<close>

record audio_hook =
  audioContextRef :: "nat option"
  sourceRef :: "nat option"
  processorRef :: "nat option"
  streamRef :: "nat option"
  playbackQueueRef :: "audio_buffer list"
  isPlayingRef :: bool
  nextPlayTimeRef :: real
  playbackContextRef :: "nat option"
  micPermission :: mic_permission
  isUserSpeaking :: bool
  isAiSpeaking :: bool
  lastSpeakTimeRef :: int
  isUserSpeakingRef :: bool
  effects :: "audio_effect list"
  nextHandle :: nat

definition initial_audio_hook :: audio_hook where
  "initial_audio_hook =
     \<lparr>audioContextRef = None, sourceRef = None, processorRef = None, streamRef = None,
      playbackQueueRef = [], isPlayingRef = False, nextPlayTimeRef = 0,
      playbackContextRef = None, micPermission = Unknown, isUserSpeaking = False,
      isAiSpeaking = False, lastSpeakTimeRef = 0, isUserSpeakingRef = False,
      effects = [], nextHandle = 0\<rparr>"

definition volumeThreshold :: real where
  "volumeThreshold = 1 / 100"

definition silenceTimeoutMs :: int where
  "silenceTimeoutMs = 300"

definition emit :: "audio_effect list \<Rightarrow> audio_hook \<Rightarrow> audio_hook" where
  "emit es s = s\<lparr>effects := effects s @ es\<rparr>"

definition setUserSpeaking :: "audio_options \<Rightarrow> bool \<Rightarrow> audio_hook \<Rightarrow> audio_hook" where
  "setUserSpeaking opts v s =
     emit (if onUserSpeakingChange opts then [UserSpeakingChange v] else [])
       (s\<lparr>isUserSpeakingRef := v, isUserSpeaking := v\<rparr>)"

text \<open>The pair \<^verbatim>\<open>setIsAiSpeaking(v); onAiSpeakingChange?.(v)\<close>.\<close>

definition setAiSpeaking :: "audio_options \<Rightarrow> bool \<Rightarrow> audio_hook \<Rightarrow> audio_hook" where
  "setAiSpeaking opts v s =
     emit (if onAiSpeakingChange opts then [AiSpeakingChange v] else [])
       (s\<lparr>isAiSpeaking := v\<rparr>)"

text \<open>
  \<^verbatim>\<open>playNextInQueue(ctx)\<close>; \<open>now\<close> is what \<^verbatim>\<open>ctx.currentTime\<close> reads during the call.
  The \<^verbatim>\<open>onended\<close> callback of the source that it starts is a later call of
  \<open>playNextInQueue\<close> with the same context.
\<close>

definition playNextInQueue :: "audio_options \<Rightarrow> nat \<Rightarrow> real \<Rightarrow> audio_hook \<Rightarrow> audio_hook" where
  "playNextInQueue opts ctx now s =
     (case playbackQueueRef s of
        [] \<Rightarrow> setAiSpeaking opts False (s\<lparr>isPlayingRef := False\<rparr>)
      | buffer # rest \<Rightarrow>
          let startTime = max now (nextPlayTimeRef s) in
          setAiSpeaking opts True
            ((emit [SourceStart ctx buffer startTime] (s\<lparr>playbackQueueRef := rest\<rparr>))
               \<lparr>nextPlayTimeRef := startTime + duration buffer, isPlayingRef := True\<rparr>))"

text \<open>
  The views of an \<^verbatim>\<open>ArrayBuffer\<close> as typed arrays, little-endian (the byte order of
  every platform that runs the code).
\<close>

definition int16_le :: "byte \<Rightarrow> byte \<Rightarrow> 16 word" where
  "int16_le b0 b1 = word_of_nat (unat b0 + 256 * unat b1)"

definition float32_le :: "byte \<Rightarrow> byte \<Rightarrow> byte \<Rightarrow> byte \<Rightarrow> 32 word" where
  "float32_le b0 b1 b2 b3 =
     word_of_nat (unat b0 + 256 * unat b1 + 65536 * unat b2 + 16777216 * unat b3)"

fun Int16Array :: "byte list \<Rightarrow> 16 word list" where
  "Int16Array (b0 # b1 # bs) = int16_le b0 b1 # Int16Array bs"
| "Int16Array bs = []"

fun Float32Array :: "byte list \<Rightarrow> 32 word list" where
  "Float32Array (b0 # b1 # b2 # b3 # bs) = float32_le b0 b1 b2 b3 # Float32Array bs"
| "Float32Array bs = []"

text \<open>
  The classification of \<^verbatim>\<open>playAudioChunk\<close>: the samples of the frame, or \<open>None\<close> for
  the branch that warns and returns.
\<close>

definition decodeChunk :: "byte list \<Rightarrow> pcm_sample list option" where
  "decodeChunk data =
     (if length data mod 4 = 0 then Some (map Float32Bits (Float32Array data))
      else if length data mod 2 = 0
      then Some (map (\<lambda>v. Exact (real_of_int (sint v) / 32768)) (Int16Array data))
      else None)"

text \<open>
  \<^verbatim>\<open>playAudioChunk(data, sampleRate)\<close>, the rate \<open>None\<close> when the argument is left out.
  The result is the exception that leaves the call, if any, and the state at that point.
\<close>

definition playAudioChunk ::
  "audio_options \<Rightarrow> byte list \<Rightarrow> real option \<Rightarrow> real \<Rightarrow> audio_hook \<Rightarrow> js_error option \<times> audio_hook"
  where
  "playAudioChunk opts data rate now s =
     (let (ctx, s1) =
            (case audioContextRef s of
               Some c \<Rightarrow> (c, s)
             | None \<Rightarrow>
                 (case playbackContextRef s of
                    Some c \<Rightarrow> (c, s)
                  | None \<Rightarrow>
                      (nextHandle s,
                       emit [NewAudioContext (nextHandle s)]
                         (s\<lparr>playbackContextRef := Some (nextHandle s),
                            nextHandle := Suc (nextHandle s)\<rparr>))))
      in case decodeChunk data of
           None \<Rightarrow> (None, emit [ConsoleWarn ''Unknown audio format, skipping chunk''] s1)
         | Some samples \<Rightarrow>
             (case createBuffer (length samples)
                     (case rate of None \<Rightarrow> CAPTURE_SAMPLE_RATE | Some r \<Rightarrow> r) of
                Inl e \<Rightarrow> (Some e, s1)
              | Inr buffer \<Rightarrow>
                  let s2 = s1\<lparr>playbackQueueRef :=
                                playbackQueueRef s1 @ [buffer\<lparr>channelData := samples\<rparr>]\<rparr>
                  in if \<not> isPlayingRef s2
                     then (None, playNextInQueue opts ctx now (setAiSpeaking opts True s2))
                     else (None, s2)))"

text \<open>
  The loudness test of \<^verbatim>\<open>onaudioprocess\<close>. For an empty block the quotient is NaN in
  JavaScript and the comparison is false.
\<close>

definition rms :: "real list \<Rightarrow> real" where
  "rms input = sqrt (foldl (\<lambda>sum s. sum + s * s) 0 input / real (length input))"

definition loud :: "real list \<Rightarrow> bool" where
  "loud input = (input \<noteq> [] \<and> rms input > volumeThreshold)"

text \<open>
  The handler \<^verbatim>\<open>processor.onaudioprocess\<close> that \<open>startCapture\<close> installs: \<open>opts\<close> are the
  options that \<open>startCapture\<close> closed over, \<open>ctxRate\<close> is \<^verbatim>\<open>ctx.sampleRate\<close> of its
  context, \<open>input\<close> the block and \<open>now\<close> what \<^verbatim>\<open>Date.now()\<close> returns.
\<close>

definition onaudioprocess ::
  "audio_options \<Rightarrow> real \<Rightarrow> real list \<Rightarrow> int \<Rightarrow> audio_hook \<Rightarrow> js_error option \<times> audio_hook"
  where
  "onaudioprocess opts ctxRate input now s =
     (let s1 = (if loud input
                then (let s' = s\<lparr>lastSpeakTimeRef := now\<rparr>
                      in if \<not> isUserSpeakingRef s' then setUserSpeaking opts True s' else s')
                else s)
      in if isConnected_option opts
         then (case downsample input ctxRate CAPTURE_SAMPLE_RATE of
                 Inl e \<Rightarrow> (Some e, s1)
               | Inr downsampled \<Rightarrow> (None, emit [SendAudio downsampled] s1))
         else (None, s1))"

text \<open>
  \<^verbatim>\<open>startCapture\<close>, from the point where the promise of \<^verbatim>\<open>getUserMedia\<close> settles: the
  stream is granted, or the promise rejects with an error (NotAllowedError when access is
  denied). The constructors of the Web Audio objects are taken to succeed.
\<close>

datatype media_result = StreamGranted | StreamRejected js_error

definition startCapture :: "audio_options \<Rightarrow> media_result \<Rightarrow> audio_hook \<Rightarrow> bool \<times> audio_hook" where
  "startCapture opts res s =
     (case res of
        StreamRejected err \<Rightarrow>
          (False,
           (emit [ConsoleError ''Failed to start audio capture:'' err] s)
             \<lparr>micPermission := Denied\<rparr>)
      | StreamGranted \<Rightarrow>
          (let stream = nextHandle s;
               ctx = nextHandle s + 1;
               source = nextHandle s + 2;
               processor = nextHandle s + 3;
               silentGain = nextHandle s + 4
           in (True,
               (emit [NewMediaStream stream, NewAudioContext ctx, NewNode ctx source,
                      NewNode ctx processor, NewNode ctx silentGain] s)
                 \<lparr>micPermission := Granted,
                   streamRef := Some stream,
                   audioContextRef := Some ctx,
                   sourceRef := Some source,
                   processorRef := Some processor,
                   nextHandle := nextHandle s + 5\<rparr>)))"

definition stopCapture :: "audio_options \<Rightarrow> audio_hook \<Rightarrow> audio_hook" where
  "stopCapture opts s =
     (let s1 = (case processorRef s of
                  Some p \<Rightarrow> (emit [DisconnectNode p] s)\<lparr>processorRef := None\<rparr>
                | None \<Rightarrow> s);
          s2 = (case sourceRef s1 of
                  Some n \<Rightarrow> (emit [DisconnectNode n] s1)\<lparr>sourceRef := None\<rparr>
                | None \<Rightarrow> s1);
          s3 = (case streamRef s2 of
                  Some m \<Rightarrow> (emit [StopTracks m] s2)\<lparr>streamRef := None\<rparr>
                | None \<Rightarrow> s2);
          s4 = (case audioContextRef s3 of
                  Some c \<Rightarrow> (emit [CloseAudioContext c] s3)\<lparr>audioContextRef := None\<rparr>
                | None \<Rightarrow> s3);
          s5 = s4\<lparr>playbackQueueRef := []\<rparr>;
          s6 = (case playbackContextRef s5 of
                  Some c \<Rightarrow> (emit [CloseAudioContext c] s5)\<lparr>playbackContextRef := None\<rparr>
                | None \<Rightarrow> s5)
      in setUserSpeaking opts False s6)"

text \<open>The body of the interval \<^verbatim>\<open>checkSilence\<close>, which runs every 100 ms.\<close>

definition checkSilence :: "audio_options \<Rightarrow> int \<Rightarrow> audio_hook \<Rightarrow> audio_hook" where
  "checkSilence opts now s =
     (if now - lastSpeakTimeRef s > silenceTimeoutMs
      then (if isUserSpeakingRef s then setUserSpeaking opts False s else s)
      else s)"

text \<open>
  The events of the hook: the calls of its functions and the callbacks that the browser
  runs, each with the options of the render it closed over and with the clock reading of
  that moment. An exception that leaves a handler ends that handler only.
\<close>

datatype audio_event =
    PlayAudioChunk audio_options "byte list" "real option" real
  | SourceEnded audio_options nat real
  | StartCapture audio_options media_result
  | AudioProcess audio_options real "real list" int
  | StopCapture audio_options
  | SilenceTick audio_options int

fun audio_step :: "audio_hook \<Rightarrow> audio_event \<Rightarrow> audio_hook" where
  "audio_step s (PlayAudioChunk opts data rate now) = snd (playAudioChunk opts data rate now s)"
| "audio_step s (SourceEnded opts ctx now) = playNextInQueue opts ctx now s"
| "audio_step s (StartCapture opts res) = snd (startCapture opts res s)"
| "audio_step s (AudioProcess opts ctxRate input now) = snd (onaudioprocess opts ctxRate input now s)"
| "audio_step s (StopCapture opts) = stopCapture opts s"
| "audio_step s (SilenceTick opts now) = checkSilence opts now s"

definition audio_run :: "audio_event list \<Rightarrow> audio_hook \<Rightarrow> audio_hook" where
  "audio_run evs s = foldl audio_step s evs"

text \<open>The play intervals scheduled so far: start and end of every started buffer.\<close>

fun scheduled :: "audio_effect list \<Rightarrow> (real \<times> real) list" where
  "scheduled [] = []"
| "scheduled (SourceStart ctx buffer startTime # es) =
     (startTime, startTime + duration buffer) # scheduled es"
| "scheduled (e # es) = scheduled es"


text \<open>The values that \<^verbatim>\<open>onUserSpeakingChange\<close> was called with, oldest first.\<close>

fun userSpeakingChanges :: "audio_effect list \<Rightarrow> bool list" where
  "userSpeakingChanges [] = []"
| "userSpeakingChanges (UserSpeakingChange v # es) = v # userSpeakingChanges es"
| "userSpeakingChanges (e # es) = userSpeakingChanges es"

text \<open>
  The time of the last loud block among the events, \<open>t\<close> when there is none: the
  \<^verbatim>\<open>Date.now()\<close> of the last \<open>AudioProcess\<close> event whose block is loud.
\<close>

fun lastLoudTime :: "int \<Rightarrow> audio_event list \<Rightarrow> int" where
  "lastLoudTime t [] = t"
| "lastLoudTime t (AudioProcess opts ctxRate input now # evs) =
     lastLoudTime (if loud input then now else t) evs"
| "lastLoudTime t (e # evs) = lastLoudTime t evs"

section \<open>Invariants of the socket hook\<close>

text \<open>No socket of the store is open.\<close>

definition none_open :: "socket_hook \<Rightarrow> bool" where
  "none_open s = list_all (\<lambda>w. readyState w \<noteq> OPEN) (sockets s)"

text \<open>If the referenced socket is open, the status is \<open>Connected\<close>.\<close>

definition open_is_connected :: "socket_hook \<Rightarrow> bool" where
  "open_is_connected s =
     (case socketRef s of
        None \<Rightarrow> True
      | Some i \<Rightarrow> readyStateOf s i \<noteq> OPEN \<or> status s = Connected)"

section \<open>Invariant of the playback timeline\<close>

text \<open>
  Every scheduled interval ends before the next one starts, no interval ends after
  \<open>nextPlayTimeRef\<close>, and no buffer (scheduled or queued) has a negative duration.
\<close>

definition timeline_ok :: "audio_hook \<Rightarrow> bool" where
  "timeline_ok s =
     (sorted_wrt (\<lambda>a b. snd a \<le> fst b) (scheduled (effects s))
      \<and> list_all (\<lambda>a. fst a \<le> snd a \<and> snd a \<le> nextPlayTimeRef s) (scheduled (effects s))
      \<and> list_all (\<lambda>b. 0 \<le> duration b) (playbackQueueRef s))"

section \<open>Properties of downsample\<close>

lemma downsample_loop_length:
  "length (downsample_loop input ratio n i out) = length out"
proof (induction input ratio n i out rule: downsample_loop.induct)
  case (1 input ratio n i out)
  show ?case
  proof (cases "i < n")
    case True
    with "1" show ?thesis by (simp add: downsample_loop.simps [of input ratio n i out])
  next
    case False
    then show ?thesis by (simp add: downsample_loop.simps [of input ratio n i out])
  qed
qed

lemma downsample_loop_nth:
  assumes "k < length out" "length out = n"
  shows "downsample_loop input ratio n i out ! k =
           (if i \<le> k then interpolate input ratio k else out ! k)"
  using assms
proof (induction input ratio n i out rule: downsample_loop.induct)
  case (1 input ratio n i out)
  show ?case
  proof (cases "i < n")
    case True
    have "downsample_loop input ratio n i out ! k =
            downsample_loop input ratio n (Suc i) (out[i := interpolate input ratio i]) ! k"
      using True by (simp add: downsample_loop.simps [of input ratio n i out])
    also have "\<dots> = (if Suc i \<le> k then interpolate input ratio k
                      else (out[i := interpolate input ratio i]) ! k)"
      using "1.IH" [OF True] "1.prems" by simp
    also have "\<dots> = (if i \<le> k then interpolate input ratio k else out ! k)"
    proof (cases "i = k")
      case True
      then show ?thesis using "1.prems" by simp
    next
      case False
      then show ?thesis by (simp add: Suc_le_eq)
    qed
    finally show ?thesis .
  next
    case False
    then show ?thesis
      using "1.prems" by (simp add: downsample_loop.simps [of input ratio n i out])
  qed
qed

text \<open>With positive rates every read of the loop is inside the input.\<close>

lemma src_index_in_range:
  assumes "0 < ratio" "int i < \<lfloor>real L / ratio\<rfloor>"
  shows "0 \<le> \<lfloor>real i * ratio\<rfloor>" and "\<lfloor>real i * ratio\<rfloor> < int L"
proof -
  show "0 \<le> \<lfloor>real i * ratio\<rfloor>"
    using assms(1) by simp
  have "real i + 1 \<le> real_of_int \<lfloor>real L / ratio\<rfloor>"
    using assms(2) by linarith
  also have "\<dots> \<le> real L / ratio"
    by simp
  finally have "real i < real L / ratio"
    by simp
  then have "real i * ratio < real L"
    using assms(1) by (simp add: pos_less_divide_eq)
  then show "\<lfloor>real i * ratio\<rfloor> < int L"
    by (simp add: floor_less_iff)
qed

lemma downsample_positive:
  assumes "0 < sourceRate" "0 < targetRate"
  shows "downsample input sourceRate targetRate =
           Inr (map (interpolate input (sourceRate / targetRate))
                  [0 ..< nat \<lfloor>real (length input) / (sourceRate / targetRate)\<rfloor>])"
proof -
  let ?r = "sourceRate / targetRate"
  let ?n = "nat \<lfloor>real (length input) / ?r\<rfloor>"
  have r: "0 < ?r" using assms by simp
  have "0 \<le> real (length input) / ?r"
    using r by (intro divide_nonneg_pos) simp_all
  then have n0: "0 \<le> \<lfloor>real (length input) / ?r\<rfloor>"
    by (simp only: zero_le_floor)
  have "downsample_loop input ?r ?n 0 (replicate ?n 0) = map (interpolate input ?r) [0 ..< ?n]"
    by (rule nth_equalityI) (simp_all add: downsample_loop_length downsample_loop_nth)
  moreover have "targetRate \<noteq> 0" "?r \<noteq> 0"
    using assms by simp_all
  moreover have "\<not> \<lfloor>real (length input) / ?r\<rfloor> < 0"
    using n0 by (simp only: not_less)
  ultimately show ?thesis
    unfolding downsample_def Let_def by (simp only: if_False)
qed

lemma interpolate_reads:
  assumes "0 < ratio" "i < nat \<lfloor>real (length input) / ratio\<rfloor>"
  defines "f \<equiv> \<lfloor>real i * ratio\<rfloor>"
  defines "c \<equiv> min (f + 1) (int (length input) - 1)"
  shows "0 \<le> f" "f < int (length input)" "0 \<le> c" "c < int (length input)"
    "interpolate input ratio i =
       input ! nat f * (1 - (real i * ratio - of_int f)) + input ! nat c * (real i * ratio - of_int f)"
proof -
  have lt: "int i < \<lfloor>real (length input) / ratio\<rfloor>"
    using assms(2) by linarith
  show f0: "0 \<le> f" and fL: "f < int (length input)"
    unfolding f_def using src_index_in_range [OF assms(1) lt] by simp_all
  show "0 \<le> c" "c < int (length input)"
    unfolding c_def using f0 fL by linarith+
  show "interpolate input ratio i =
       input ! nat f * (1 - (real i * ratio - of_int f)) + input ! nat c * (real i * ratio - of_int f)"
    unfolding interpolate_def Let_def c_def f_def by (rule refl)
qed

lemma convex_between:
  fixes a b t lo hi :: real
  assumes "0 \<le> t" "t \<le> 1" "lo \<le> a" "a \<le> hi" "lo \<le> b" "b \<le> hi"
  shows "lo \<le> a * (1 - t) + b * t" and "a * (1 - t) + b * t \<le> hi"
proof -
  have "lo * (1 - t) \<le> a * (1 - t)" "lo * t \<le> b * t"
    using assms by (simp_all add: mult_right_mono)
  then have "lo * (1 - t) + lo * t \<le> a * (1 - t) + b * t"
    by linarith
  then show "lo \<le> a * (1 - t) + b * t"
    by (simp add: algebra_simps)
  have "a * (1 - t) \<le> hi * (1 - t)" "b * t \<le> hi * t"
    using assms by (simp_all add: mult_right_mono)
  then have "a * (1 - t) + b * t \<le> hi * (1 - t) + hi * t"
    by linarith
  then show "a * (1 - t) + b * t \<le> hi"
    by (simp add: algebra_simps)
qed

lemma interpolate_convex:
  assumes "0 < ratio" "i < nat \<lfloor>real (length input) / ratio\<rfloor>"
  shows "\<exists>a \<in> set input. \<exists>b \<in> set input. \<exists>t. 0 \<le> t \<and> t < 1 \<and>
           interpolate input ratio i = a * (1 - t) + b * t"
proof -
  let ?f = "\<lfloor>real i * ratio\<rfloor>"
  let ?c = "min (?f + 1) (int (length input) - 1)"
  let ?t = "real i * ratio - of_int ?f"
  note r = interpolate_reads [OF assms]
  have "input ! nat ?f \<in> set input" "input ! nat ?c \<in> set input"
    using r(1-4) by (simp_all add: nat_less_iff)
  moreover have "0 \<le> ?t" "?t < 1"
    by linarith+
  ultimately show ?thesis
    using r(5) by blast
qed






section \<open>Properties of the socket hook\<close>

lemmas socket_defs =
  readyStateOf_def setReadyState_def socketClose_def socketSend_def notify_def connect_def
  openListener_def closeListener_def errorListener_def messageListener_def disconnect_def
  send_def listenersOf_def

lemma socket_run_Nil [simp]: "socket_run [] s = s"
  by (simp add: socket_run_def)

lemma socket_run_Cons [simp]: "socket_run (e # evs) s = socket_run evs (socket_step s e)"
  by (simp add: socket_run_def)

lemma readyStateOf_OPEN_in_store: "readyStateOf s i = OPEN \<Longrightarrow> i < length (sockets s)"
  by (simp add: readyStateOf_def split: if_splits)

subsection \<open>send\<close>

lemma send_closed:
  assumes "\<not> (\<exists>i. socketRef s = Some i \<and> readyStateOf s i = OPEN)"
  shows "send data s = (False, s)"
  using assms by (simp add: send_def split: option.splits)

lemma send_open:
  assumes "socketRef s = Some i" "readyStateOf s i = OPEN"
  shows "send data s = (True, socketSend i data s)"
  using assms by (simp add: send_def)

lemma socketSend_frames:
  assumes "i < length (sockets s)"
  shows "length (sockets (socketSend i data s)) = length (sockets s)"
    and "sentFrames (sockets (socketSend i data s) ! i) = sentFrames (sockets s ! i) @ [data]"
    and "j \<noteq> i \<Longrightarrow> sockets (socketSend i data s) ! j = sockets s ! j"
    and "readyState (sockets (socketSend i data s) ! j) = readyState (sockets s ! j)"
    and "url (sockets (socketSend i data s) ! j) = url (sockets s ! j)"
    and "listeners (sockets (socketSend i data s) ! j) = listeners (sockets s ! j)"
  using assms by (auto simp: socketSend_def nth_list_update)

lemma socketSend_frame:
  "socketRef (socketSend i data s) = socketRef s"
  "status (socketSend i data s) = status s"
  "errorMessage (socketSend i data s) = errorMessage s"
  "callbacks (socketSend i data s) = callbacks s"
  by (simp_all add: socketSend_def)

lemma none_open_readyStateOf: "none_open s \<Longrightarrow> readyStateOf s i \<noteq> OPEN"
  by (simp add: none_open_def readyStateOf_def list_all_length)

lemma none_open_step:
  assumes "none_open s" "\<not> is_open_event e"
  shows "none_open (socket_step s e)"
proof (cases e)
  case (OpenEvent i)
  with assms(2) show ?thesis by simp
qed (use assms(1) none_open_readyStateOf [OF assms(1)] in
      \<open>auto simp: none_open_def socket_defs list_all_length nth_list_update nth_append
         split: option.splits\<close>)

lemma none_open_run:
  assumes "none_open s" "\<not> (\<exists>e \<in> set evs. is_open_event e)"
  shows "none_open (socket_run evs s)"
  using assms
proof (induction evs arbitrary: s)
  case Nil
  then show ?case by simp
next
  case (Cons e evs)
  from Cons.prems have "none_open (socket_step s e)"
    by (simp add: none_open_step)
  with Cons.IH Cons.prems show ?case by simp
qed

lemma open_is_connected_step:
  assumes "open_is_connected s"
  shows "open_is_connected (socket_step s e)"
proof (cases e)
  case (CallConnect opts)
  with assms show ?thesis
    by (auto simp: open_is_connected_def connect_def readyStateOf_def nth_append
          split: option.splits)
next
  case (CallDisconnect opts)
  then show ?thesis
    by (simp add: open_is_connected_def disconnect_def notify_def Let_def split: option.splits)
next
  case (CallSend data)
  with assms show ?thesis
    by (auto simp: open_is_connected_def send_def socketSend_def readyStateOf_def
          nth_list_update split: option.splits)
next
  case (OpenEvent i)
  with assms show ?thesis
    by (auto simp: open_is_connected_def openListener_def notify_def setReadyState_def
          split: option.splits)
next
  case (CloseEvent i)
  with assms show ?thesis
    by (simp add: open_is_connected_def closeListener_def notify_def)
next
  case (FailEvent i)
  with assms show ?thesis
    by (simp add: open_is_connected_def closeListener_def notify_def)
next
  case (MessageEvent i data)
  with assms show ?thesis
    by (auto simp: open_is_connected_def messageListener_def notify_def readyStateOf_def
          split: option.splits message_data.splits)
qed

lemma open_is_connected_run:
  "open_is_connected s \<Longrightarrow> open_is_connected (socket_run evs s)"
  by (induction evs arbitrary: s) (simp_all add: open_is_connected_step)

lemma initial_invariants:
  "none_open initial_socket_hook" "open_is_connected initial_socket_hook"
  by (simp_all add: none_open_def open_is_connected_def initial_socket_hook_def)



text \<open>
  C10. \<open>send\<close> leaves the status, the error message, the socket reference and the calls
  made to the callbacks as they were, whatever it returns, and it changes no socket's
  \<open>readyState\<close>, URL or listeners. When it returns false the whole state is unchanged;
  when it returns true the only change is that the bytes are appended to the frames
  written to the referenced socket.
\<close>

theorem send_frame:
  "status (snd (send data s)) = status s
   \<and> errorMessage (snd (send data s)) = errorMessage s
   \<and> socketRef (snd (send data s)) = socketRef s
   \<and> callbacks (snd (send data s)) = callbacks s
   \<and> length (sockets (snd (send data s))) = length (sockets s)
   \<and> (\<forall>j < length (sockets s).
         readyState (sockets (snd (send data s)) ! j) = readyState (sockets s ! j)
         \<and> url (sockets (snd (send data s)) ! j) = url (sockets s ! j)
         \<and> listeners (sockets (snd (send data s)) ! j) = listeners (sockets s ! j))
   \<and> (\<not> fst (send data s) \<longrightarrow> snd (send data s) = s)
   \<and> (fst (send data s) \<longrightarrow>
         (\<exists>i < length (sockets s). socketRef s = Some i
            \<and> (\<forall>j < length (sockets s).
                  sentFrames (sockets (snd (send data s)) ! j) =
                    (if j = i then sentFrames (sockets s ! j) @ [data]
                     else sentFrames (sockets s ! j)))))"
proof (cases "\<exists>i. socketRef s = Some i \<and> readyStateOf s i = OPEN")
  case False
  then have "send data s = (False, s)"
    by (rule send_closed)
  then show ?thesis by simp
next
  case True
  then obtain i where ref: "socketRef s = Some i" and op: "readyStateOf s i = OPEN"
    by blast
  have i: "i < length (sockets s)"
    using op by (rule readyStateOf_OPEN_in_store)
  have eq: "send data s = (True, socketSend i data s)"
    using ref op by (rule send_open)
  have frames: "\<forall>j < length (sockets s).
                  sentFrames (sockets (socketSend i data s) ! j) =
                    (if j = i then sentFrames (sockets s ! j) @ [data]
                     else sentFrames (sockets s ! j))"
    using i by (simp add: socketSend_frames)
  show ?thesis
    unfolding eq fst_conv snd_conv
    using i ref frames by (simp add: socketSend_frame socketSend_frames)
qed

theorem send_frame_witness:
  "status (snd (send [7] initial_socket_hook)) = Disconnected
   \<and> snd (send [7] initial_socket_hook) = initial_socket_hook
   \<and> status (snd (send [7]
        (socket_run [CallConnect \<lparr>uri = ''wss://localhost:8000/ws'', onMessage = True,
                        onConnect = False, onDisconnect = False\<rparr>, OpenEvent 0]
           initial_socket_hook))) = Connected
   \<and> sentFrames (sockets (snd (send [7]
        (socket_run [CallConnect \<lparr>uri = ''wss://localhost:8000/ws'', onMessage = True,
                        onConnect = False, onDisconnect = False\<rparr>, OpenEvent 0]
           initial_socket_hook))) ! 0) = [[7]]"
proof -
  let ?opts = "\<lparr>uri = ''wss://localhost:8000/ws'', onMessage = True,
                 onConnect = False, onDisconnect = False\<rparr>"
  let ?s2 = "socket_run [CallConnect ?opts, OpenEvent 0] initial_socket_hook"
  note f0 = send_frame [of "[7]" initial_socket_hook]
  note f2 = send_frame [of "[7]" ?s2]
  have r0: "\<not> fst (send [7] initial_socket_hook)"
    by (simp add: send_def initial_socket_hook_def)
  have r2: "fst (send [7] ?s2)"
    by (simp add: initial_socket_hook_def socket_defs)
  have s2: "status ?s2 = Connected" "socketRef ?s2 = Some 0" "length (sockets ?s2) = 1"
    "sentFrames (sockets ?s2 ! 0) = []"
    by (simp_all add: initial_socket_hook_def socket_defs)
  have a: "status (snd (send [7] initial_socket_hook)) = Disconnected"
    using f0 by (simp add: initial_socket_hook_def)
  have b: "snd (send [7] initial_socket_hook) = initial_socket_hook"
    using f0 r0 by blast
  have c: "status (snd (send [7] ?s2)) = Connected"
    using f2 s2(1) by simp
  from f2 r2 obtain i where "i < length (sockets ?s2)" "socketRef ?s2 = Some i"
    and fr: "\<forall>j < length (sockets ?s2).
               sentFrames (sockets (snd (send [7] ?s2)) ! j) =
                 (if j = i then sentFrames (sockets ?s2 ! j) @ [[7]] else sentFrames (sockets ?s2 ! j))"
    by blast
  then have "i = 0"
    using s2(2) by simp
  with fr s2(3,4) have d: "sentFrames (sockets (snd (send [7] ?s2)) ! 0) = [[7]]"
    by simp
  from a b c d show ?thesis
    by (intro conjI)
qed

subsection \<open>disconnect\<close>

lemma disconnect_fields:
  "socketRef (disconnect opts s) = None"
  "status (disconnect opts s) = Disconnected"
  "errorMessage (disconnect opts s) = None"
  "sockets (disconnect opts s) =
     (case socketRef s of None \<Rightarrow> sockets s | Some i \<Rightarrow> sockets (socketClose i s))"
  "callbacks (disconnect opts s) =
     callbacks s @ (if onDisconnect opts then [OnDisconnect] else [])"
  by (simp_all add: disconnect_def notify_def socketClose_def setReadyState_def Let_def
        split: option.splits)

lemma disconnect_twice:
  "disconnect opts' (disconnect opts s) =
     (disconnect opts s)\<lparr>callbacks := callbacks (disconnect opts s) @
        (if onDisconnect opts' then [OnDisconnect] else [])\<rparr>"
  by (simp add: disconnect_def notify_def Let_def split: option.splits)

lemma disconnect_closes:
  assumes "socketRef s = Some i"
  shows "readyStateOf (disconnect opts s) i \<noteq> CONNECTING"
    and "readyStateOf (disconnect opts s) i \<noteq> OPEN"
    and "length (sockets (disconnect opts s)) = length (sockets s)"
    and "readyStateOf s i \<noteq> CLOSED \<Longrightarrow> readyStateOf (disconnect opts s) i \<noteq> CLOSED"
    and "listenersOf (disconnect opts s) i = listenersOf s i"
  using assms
  by (auto simp: disconnect_def notify_def socketClose_def setReadyState_def readyStateOf_def
        listenersOf_def Let_def split: if_splits)

lemma closeListener_callbacks:
  "callbacks (closeListener opts s) =
     callbacks s @ (if onDisconnect opts then [OnDisconnect] else [])"
  by (simp add: closeListener_def notify_def)

lemma close_event_after_disconnect:
  assumes "socketRef s = Some i" "i < length (sockets s)" "readyStateOf s i \<noteq> CLOSED"
  shows "callbacks (socket_step (disconnect opts s) (CloseEvent i)) =
           callbacks s @ (if onDisconnect opts then [OnDisconnect] else [])
             @ (if onDisconnect (listenersOf s i) then [OnDisconnect] else [])"
proof -
  have "socket_step (disconnect opts s) (CloseEvent i) =
          closeListener (listenersOf s i) (setReadyState i CLOSED (disconnect opts s))"
    using assms disconnect_closes [OF assms(1), of opts] by simp
  moreover have "callbacks (setReadyState i CLOSED (disconnect opts s)) =
                   callbacks (disconnect opts s)"
    by (simp add: setReadyState_def)
  ultimately show ?thesis
    by (simp add: closeListener_callbacks disconnect_fields)
qed

text \<open>
  C4, as the code has it. A call of \<open>disconnect\<close> closes the referenced socket if there is
  one (a connecting or open socket starts closing) and forgets it, sets the status to
  \<open>Disconnected\<close> and the error message to null whatever the state was, and itself calls
  \<open>onDisconnect\<close> once when the callback is given. A second call in a row changes nothing
  of the state and calls \<open>onDisconnect\<close> once more. The close listener of the socket stays
  attached: when the close event of the socket that was closed fires afterwards, the
  listener calls the \<open>onDisconnect\<close> it closed over once more.
\<close>

theorem disconnect_spec:
  "socketRef (disconnect opts s) = None
   \<and> status (disconnect opts s) = Disconnected
   \<and> errorMessage (disconnect opts s) = None
   \<and> sockets (disconnect opts s) =
       (case socketRef s of None \<Rightarrow> sockets s | Some i \<Rightarrow> sockets (socketClose i s))
   \<and> (\<forall>i. socketRef s = Some i \<longrightarrow>
          readyStateOf (disconnect opts s) i \<noteq> CONNECTING
          \<and> readyStateOf (disconnect opts s) i \<noteq> OPEN)
   \<and> callbacks (disconnect opts s) =
       callbacks s @ (if onDisconnect opts then [OnDisconnect] else [])
   \<and> disconnect opts' (disconnect opts s) =
       (disconnect opts s)\<lparr>callbacks := callbacks (disconnect opts s) @
          (if onDisconnect opts' then [OnDisconnect] else [])\<rparr>
   \<and> (\<forall>i. socketRef s = Some i \<and> i < length (sockets s) \<and> readyStateOf s i \<noteq> CLOSED \<longrightarrow>
          callbacks (socket_step (disconnect opts s) (CloseEvent i)) =
            callbacks s @ (if onDisconnect opts then [OnDisconnect] else [])
              @ (if onDisconnect (listenersOf s i) then [OnDisconnect] else []))"
proof (intro conjI allI impI)
  fix i assume "socketRef s = Some i"
  then show "readyStateOf (disconnect opts s) i \<noteq> CONNECTING"
    and "readyStateOf (disconnect opts s) i \<noteq> OPEN"
    by (rule disconnect_closes)+
next
  fix i assume "socketRef s = Some i \<and> i < length (sockets s) \<and> readyStateOf s i \<noteq> CLOSED"
  then show "callbacks (socket_step (disconnect opts s) (CloseEvent i)) =
               callbacks s @ (if onDisconnect opts then [OnDisconnect] else [])
                 @ (if onDisconnect (listenersOf s i) then [OnDisconnect] else [])"
    by (intro close_event_after_disconnect) simp_all
qed (rule disconnect_fields disconnect_twice)+

theorem disconnect_spec_witness:
  "status (disconnect \<lparr>uri = ''wss://localhost:8000/ws'', onMessage = False,
                        onConnect = False, onDisconnect = True\<rparr>
      (socket_run [CallConnect \<lparr>uri = ''wss://localhost:8000/ws'', onMessage = False,
                      onConnect = False, onDisconnect = True\<rparr>, OpenEvent 0]
         initial_socket_hook)) = Disconnected
   \<and> readyStateOf (disconnect \<lparr>uri = ''wss://localhost:8000/ws'', onMessage = False,
                        onConnect = False, onDisconnect = True\<rparr>
      (socket_run [CallConnect \<lparr>uri = ''wss://localhost:8000/ws'', onMessage = False,
                      onConnect = False, onDisconnect = True\<rparr>, OpenEvent 0]
         initial_socket_hook)) 0 \<noteq> OPEN
   \<and> callbacks (socket_step (disconnect \<lparr>uri = ''wss://localhost:8000/ws'', onMessage = False,
                        onConnect = False, onDisconnect = True\<rparr>
      (socket_run [CallConnect \<lparr>uri = ''wss://localhost:8000/ws'', onMessage = False,
                      onConnect = False, onDisconnect = True\<rparr>, OpenEvent 0]
         initial_socket_hook)) (CloseEvent 0)) = [OnDisconnect, OnDisconnect]"
proof -
  let ?opts = "\<lparr>uri = ''wss://localhost:8000/ws'', onMessage = False,
                 onConnect = False, onDisconnect = True\<rparr>"
  let ?s = "socket_run [CallConnect ?opts, OpenEvent 0] initial_socket_hook"
  have s: "socketRef ?s = Some 0" "0 < length (sockets ?s)" "readyStateOf ?s 0 \<noteq> CLOSED"
    "callbacks ?s = []" "listenersOf ?s 0 = ?opts"
    by (simp_all add: initial_socket_hook_def socket_defs)
  note spec = disconnect_spec [of ?opts ?s ?opts]
  have a: "status (disconnect ?opts ?s) = Disconnected"
    using spec by blast
  have b: "readyStateOf (disconnect ?opts ?s) 0 \<noteq> OPEN"
    using spec s(1) by blast
  have "callbacks (socket_step (disconnect ?opts ?s) (CloseEvent 0)) =
          callbacks ?s @ (if onDisconnect ?opts then [OnDisconnect] else [])
            @ (if onDisconnect (listenersOf ?s 0) then [OnDisconnect] else [])"
    using spec s(1,2,3) by blast
  then have c: "callbacks (socket_step (disconnect ?opts ?s) (CloseEvent 0)) =
                  [OnDisconnect, OnDisconnect]"
    using s(4,5) by simp
  from a b c show ?thesis
    by (intro conjI)
qed

text \<open>
  C4 as stated fails: one call of \<open>disconnect\<close> on an open socket, followed by the close
  event of that socket, calls \<open>onDisconnect\<close> twice.
\<close>

theorem disconnect_once_counterexample:
  "length (filter is_disconnect_call
      [CallConnect \<lparr>uri = ''wss://localhost:8000/ws'', onMessage = False,
                     onConnect = False, onDisconnect = True\<rparr>,
       OpenEvent 0,
       CallDisconnect \<lparr>uri = ''wss://localhost:8000/ws'', onMessage = False,
                        onConnect = False, onDisconnect = True\<rparr>,
       CloseEvent 0]) = 1
   \<and> count_list (callbacks (socket_run
      [CallConnect \<lparr>uri = ''wss://localhost:8000/ws'', onMessage = False,
                     onConnect = False, onDisconnect = True\<rparr>,
       OpenEvent 0,
       CallDisconnect \<lparr>uri = ''wss://localhost:8000/ws'', onMessage = False,
                        onConnect = False, onDisconnect = True\<rparr>,
       CloseEvent 0] initial_socket_hook)) OnDisconnect = 2"
  by (simp add: initial_socket_hook_def socket_defs)


section \<open>Properties of the audio hook\<close>

lemmas audio_defs =
  emit_def setUserSpeaking_def setAiSpeaking_def playNextInQueue_def playAudioChunk_def
  onaudioprocess_def startCapture_def stopCapture_def checkSilence_def createBuffer_def

lemma audio_run_Nil [simp]: "audio_run [] s = s"
  by (simp add: audio_run_def)

lemma audio_run_Cons [simp]: "audio_run (e # evs) s = audio_run evs (audio_step s e)"
  by (simp add: audio_run_def)

lemma audio_run_snoc: "audio_run (evs @ [e]) s = audio_step (audio_run evs s) e"
  by (simp add: audio_run_def)

subsection \<open>The playback timeline\<close>

lemma scheduled_append: "scheduled (es @ es') = scheduled es @ scheduled es'"
  by (induction es rule: scheduled.induct) simp_all

lemma playNextInQueue_empty:
  assumes "playbackQueueRef s = []"
  shows "playNextInQueue opts ctx now s =
           s\<lparr>isPlayingRef := False, isAiSpeaking := False,
             effects := effects s @ (if onAiSpeakingChange opts then [AiSpeakingChange False] else [])\<rparr>"
  using assms by (simp add: playNextInQueue_def setAiSpeaking_def emit_def)

lemma playNextInQueue_start:
  assumes "playbackQueueRef s = buffer # rest"
  shows "effects (playNextInQueue opts ctx now s) =
           effects s @ [SourceStart ctx buffer (max now (nextPlayTimeRef s))]
             @ (if onAiSpeakingChange opts then [AiSpeakingChange True] else [])"
    and "nextPlayTimeRef (playNextInQueue opts ctx now s) =
           max now (nextPlayTimeRef s) + duration buffer"
    and "playbackQueueRef (playNextInQueue opts ctx now s) = rest"
    and "isPlayingRef (playNextInQueue opts ctx now s)"
    and "isAiSpeaking (playNextInQueue opts ctx now s)"
  using assms by (simp_all add: playNextInQueue_def setAiSpeaking_def emit_def Let_def)

lemma timeline_ok_playNextInQueue:
  assumes "timeline_ok s"
  shows "timeline_ok (playNextInQueue opts ctx now s)"
proof (cases "playbackQueueRef s")
  case Nil
  with assms show ?thesis
    by (simp add: playNextInQueue_empty timeline_ok_def scheduled_append)
next
  case (Cons buffer rest)
  let ?st = "max now (nextPlayTimeRef s)"
  let ?s' = "playNextInQueue opts ctx now s"
  from assms Cons have d: "0 \<le> duration buffer" and rest: "list_all (\<lambda>b. 0 \<le> duration b) rest"
    by (simp_all add: timeline_ok_def)
  have sch: "scheduled (effects ?s') = scheduled (effects s) @ [(?st, ?st + duration buffer)]"
    by (simp add: playNextInQueue_start [OF Cons] scheduled_append)
  have before: "\<forall>a \<in> set (scheduled (effects s)). fst a \<le> snd a \<and> snd a \<le> nextPlayTimeRef s"
    using assms by (simp add: timeline_ok_def list_all_iff)
  have "sorted_wrt (\<lambda>a b. snd a \<le> fst b) (scheduled (effects ?s'))"
    unfolding sch using assms before
    by (auto simp: sorted_wrt_append timeline_ok_def)
  moreover have "list_all (\<lambda>a. fst a \<le> snd a \<and> snd a \<le> nextPlayTimeRef ?s')
                   (scheduled (effects ?s'))"
    unfolding sch using before d
    by (auto simp: list_all_iff playNextInQueue_start [OF Cons])
  moreover have "list_all (\<lambda>b. 0 \<le> duration b) (playbackQueueRef ?s')"
    using rest by (simp add: playNextInQueue_start [OF Cons])
  ultimately show ?thesis
    by (simp add: timeline_ok_def)
qed

lemma timeline_ok_same:
  assumes "timeline_ok s"
    and "scheduled (effects s') = scheduled (effects s)"
    and "nextPlayTimeRef s' = nextPlayTimeRef s"
    and "playbackQueueRef s' = playbackQueueRef s \<or> playbackQueueRef s' = []"
  shows "timeline_ok s'"
  using assms by (auto simp: timeline_ok_def)

lemma createBuffer_duration:
  assumes "createBuffer len rate = Inr buffer"
  shows "0 \<le> duration (buffer\<lparr>channelData := samples\<rparr>)"
  using assms by (auto simp: createBuffer_def duration_def split: if_splits)

lemma timeline_ok_playAudioChunk:
  assumes "timeline_ok s"
  shows "timeline_ok (snd (playAudioChunk opts data rate now s))"
proof -
  obtain ctx s1 where c: "(case audioContextRef s of
               Some c \<Rightarrow> (c, s)
             | None \<Rightarrow>
                 (case playbackContextRef s of
                    Some c \<Rightarrow> (c, s)
                  | None \<Rightarrow>
                      (nextHandle s,
                       emit [NewAudioContext (nextHandle s)]
                         (s\<lparr>playbackContextRef := Some (nextHandle s),
                            nextHandle := Suc (nextHandle s)\<rparr>)))) = (ctx, s1)"
    by fastforce
  have s1: "timeline_ok s1"
    using c assms
    by (auto simp: timeline_ok_def emit_def scheduled_append split: option.splits)
  show ?thesis
  proof (cases "decodeChunk data")
    case None
    have "timeline_ok (emit [ConsoleWarn ''Unknown audio format, skipping chunk''] s1)"
      using s1 by (simp add: timeline_ok_def emit_def scheduled_append)
    then show ?thesis
      using None c by (simp add: playAudioChunk_def)
  next
    case (Some samples)
    show ?thesis
    proof (cases "createBuffer (length samples)
                    (case rate of None \<Rightarrow> CAPTURE_SAMPLE_RATE | Some r \<Rightarrow> r)")
      case (Inl e)
      then show ?thesis
        using Some c s1 by (simp add: playAudioChunk_def)
    next
      case (Inr buffer)
      let ?s2 = "s1\<lparr>playbackQueueRef := playbackQueueRef s1 @ [buffer\<lparr>channelData := samples\<rparr>]\<rparr>"
      have s2: "timeline_ok ?s2"
        using s1 createBuffer_duration [OF Inr, of samples] by (simp add: timeline_ok_def)
      then have "timeline_ok (setAiSpeaking opts True ?s2)"
        by (simp add: timeline_ok_def setAiSpeaking_def emit_def scheduled_append)
      then have "timeline_ok (playNextInQueue opts ctx now (setAiSpeaking opts True ?s2))"
        by (rule timeline_ok_playNextInQueue)
      with s2 show ?thesis
        using Some c Inr by (simp add: playAudioChunk_def Let_def)
    qed
  qed
qed

lemma timeline_ok_step:
  assumes "timeline_ok s"
  shows "timeline_ok (audio_step s e)"
proof (cases e)
  case (PlayAudioChunk opts data rate now)
  with assms show ?thesis by (simp add: timeline_ok_playAudioChunk)
next
  case (SourceEnded opts ctx now)
  with assms show ?thesis by (simp add: timeline_ok_playNextInQueue)
next
  case (StartCapture opts res)
  with assms show ?thesis
    by (auto simp: timeline_ok_def startCapture_def emit_def scheduled_append Let_def
          split: media_result.splits)
next
  case (AudioProcess opts ctxRate input now)
  with assms show ?thesis
    by (auto simp: timeline_ok_def onaudioprocess_def setUserSpeaking_def emit_def
          scheduled_append Let_def split: sum.splits)
next
  case (StopCapture opts)
  with assms show ?thesis
    by (auto simp: timeline_ok_def stopCapture_def setUserSpeaking_def emit_def
          scheduled_append Let_def split: option.splits)
next
  case (SilenceTick opts now)
  with assms show ?thesis
    by (auto simp: timeline_ok_def checkSilence_def setUserSpeaking_def emit_def
          scheduled_append)
qed

lemma timeline_ok_run: "timeline_ok s \<Longrightarrow> timeline_ok (audio_run evs s)"
  by (induction evs arbitrary: s) (simp_all add: timeline_ok_step)

lemma timeline_ok_initial: "timeline_ok initial_audio_hook"
  by (simp add: timeline_ok_def initial_audio_hook_def)

lemma timeline_ok_pairs:
  assumes "timeline_ok s" "i < j" "j < length (scheduled (effects s))"
  shows "fst (scheduled (effects s) ! i) \<le> snd (scheduled (effects s) ! i)"
    and "snd (scheduled (effects s) ! i) \<le> fst (scheduled (effects s) ! j)"
proof -
  from assms have i: "i < length (scheduled (effects s))" by simp
  with assms(1) show "fst (scheduled (effects s) ! i) \<le> snd (scheduled (effects s) ! i)"
    by (simp add: timeline_ok_def list_all_length)
  from assms show "snd (scheduled (effects s) ! i) \<le> fst (scheduled (effects s) ! j)"
    by (simp add: timeline_ok_def sorted_wrt_iff_nth_less)
qed

text \<open>
  C3. A call of \<open>playNextInQueue\<close> on a non-empty queue starts the head of the queue at
  \<open>max(currentTime, nextPlayTime)\<close> and then sets \<open>nextPlayTime\<close> to that start time plus
  the duration of the buffer. Hence, whatever events the hook goes through from its
  initial state (frames arriving, sources ending, capture started and stopped, blocks
  and timer ticks, at any clock readings), every scheduled interval runs forward and
  ends before every later one starts: no two scheduled intervals overlap.
\<close>

theorem playback_schedule:
  "(\<forall>buffer rest. playbackQueueRef s = buffer # rest \<longrightarrow>
       effects (playNextInQueue opts ctx now s) =
         effects s @ [SourceStart ctx buffer (max now (nextPlayTimeRef s))]
           @ (if onAiSpeakingChange opts then [AiSpeakingChange True] else [])
       \<and> nextPlayTimeRef (playNextInQueue opts ctx now s) =
           max now (nextPlayTimeRef s) + duration buffer
       \<and> playbackQueueRef (playNextInQueue opts ctx now s) = rest)
   \<and> (\<forall>evs i j. i < j \<and> j < length (scheduled (effects (audio_run evs initial_audio_hook))) \<longrightarrow>
         fst (scheduled (effects (audio_run evs initial_audio_hook)) ! i)
           \<le> snd (scheduled (effects (audio_run evs initial_audio_hook)) ! i)
         \<and> snd (scheduled (effects (audio_run evs initial_audio_hook)) ! i)
           \<le> fst (scheduled (effects (audio_run evs initial_audio_hook)) ! j))"
proof (intro conjI allI impI)
  fix buffer rest assume q: "playbackQueueRef s = buffer # rest"
  show "effects (playNextInQueue opts ctx now s) =
          effects s @ [SourceStart ctx buffer (max now (nextPlayTimeRef s))]
            @ (if onAiSpeakingChange opts then [AiSpeakingChange True] else [])"
    and "nextPlayTimeRef (playNextInQueue opts ctx now s) =
           max now (nextPlayTimeRef s) + duration buffer"
    and "playbackQueueRef (playNextInQueue opts ctx now s) = rest"
    by (rule playNextInQueue_start [OF q])+
next
  fix evs i j
  assume ij: "i < j \<and> j < length (scheduled (effects (audio_run evs initial_audio_hook)))"
  have ok: "timeline_ok (audio_run evs initial_audio_hook)"
    by (intro timeline_ok_run timeline_ok_initial)
  from ij have i: "i < j" and j: "j < length (scheduled (effects (audio_run evs initial_audio_hook)))"
    by simp_all
  show "fst (scheduled (effects (audio_run evs initial_audio_hook)) ! i)
           \<le> snd (scheduled (effects (audio_run evs initial_audio_hook)) ! i)"
    by (rule timeline_ok_pairs(1) [OF ok i j])
  show "snd (scheduled (effects (audio_run evs initial_audio_hook)) ! i)
           \<le> fst (scheduled (effects (audio_run evs initial_audio_hook)) ! j)"
    by (rule timeline_ok_pairs(2) [OF ok i j])
qed

theorem playback_schedule_witness:
  "scheduled (effects (audio_run
      [PlayAudioChunk \<lparr>isConnected_option = True, onUserSpeakingChange = False,
                        onAiSpeakingChange = True\<rparr> [0, 0, 0, 0] None 0,
       PlayAudioChunk \<lparr>isConnected_option = True, onUserSpeakingChange = False,
                        onAiSpeakingChange = True\<rparr> [0, 0, 0, 0, 0, 0, 0, 0] None 0,
       SourceEnded \<lparr>isConnected_option = True, onUserSpeakingChange = False,
                     onAiSpeakingChange = True\<rparr> 0 (1 / 16000)]
      initial_audio_hook)) = [(0, 1 / 16000), (1 / 16000, 3 / 16000)]
   \<and> snd (scheduled (effects (audio_run
      [PlayAudioChunk \<lparr>isConnected_option = True, onUserSpeakingChange = False,
                        onAiSpeakingChange = True\<rparr> [0, 0, 0, 0] None 0,
       PlayAudioChunk \<lparr>isConnected_option = True, onUserSpeakingChange = False,
                        onAiSpeakingChange = True\<rparr> [0, 0, 0, 0, 0, 0, 0, 0] None 0,
       SourceEnded \<lparr>isConnected_option = True, onUserSpeakingChange = False,
                     onAiSpeakingChange = True\<rparr> 0 (1 / 16000)]
      initial_audio_hook)) ! 0)
     \<le> fst (scheduled (effects (audio_run
      [PlayAudioChunk \<lparr>isConnected_option = True, onUserSpeakingChange = False,
                        onAiSpeakingChange = True\<rparr> [0, 0, 0, 0] None 0,
       PlayAudioChunk \<lparr>isConnected_option = True, onUserSpeakingChange = False,
                        onAiSpeakingChange = True\<rparr> [0, 0, 0, 0, 0, 0, 0, 0] None 0,
       SourceEnded \<lparr>isConnected_option = True, onUserSpeakingChange = False,
                     onAiSpeakingChange = True\<rparr> 0 (1 / 16000)]
      initial_audio_hook)) ! 1)"
proof -
  let ?opts = "\<lparr>isConnected_option = True, onUserSpeakingChange = False,
                 onAiSpeakingChange = True\<rparr>"
  let ?evs = "[PlayAudioChunk ?opts [0, 0, 0, 0] None 0,
               PlayAudioChunk ?opts [0, 0, 0, 0, 0, 0, 0, 0] None 0,
               SourceEnded ?opts 0 (1 / 16000)]"
  let ?iv = "scheduled (effects (audio_run ?evs initial_audio_hook))"
  have iv: "?iv = [(0, 1 / 16000), (1 / 16000, 3 / 16000)]"
    by (simp add: initial_audio_hook_def audio_defs decodeChunk_def duration_def
          CAPTURE_SAMPLE_RATE_def Let_def)
  then have len: "(0::nat) < 1 \<and> 1 < length ?iv"
    by simp
  from playback_schedule [of initial_audio_hook ?opts 0 0] len
  have "snd (?iv ! 0) \<le> fst (?iv ! 1)"
    by blast
  with iv show ?thesis
    by (intro conjI)
qed

subsection \<open>Teardown\<close>

lemma stopCapture_fields:
  "playbackQueueRef (stopCapture opts s) = []"
  "playbackContextRef (stopCapture opts s) = None"
  "audioContextRef (stopCapture opts s) = None"
  "processorRef (stopCapture opts s) = None"
  "sourceRef (stopCapture opts s) = None"
  "streamRef (stopCapture opts s) = None"
  "isPlayingRef (stopCapture opts s) = isPlayingRef s"
  "isAiSpeaking (stopCapture opts s) = isAiSpeaking s"
  "nextPlayTimeRef (stopCapture opts s) = nextPlayTimeRef s"
  by (simp_all add: stopCapture_def setUserSpeaking_def emit_def Let_def split: option.splits)

lemma stopCapture_closes:
  "playbackContextRef s = Some c \<Longrightarrow> CloseAudioContext c \<in> set (effects (stopCapture opts s))"
  "audioContextRef s = Some c \<Longrightarrow> CloseAudioContext c \<in> set (effects (stopCapture opts s))"
  by (auto simp: stopCapture_def setUserSpeaking_def emit_def Let_def split: option.splits)

text \<open>
  C7, as the code has it. \<open>stopCapture\<close> empties the queue and closes and forgets both
  audio contexts (the playback sink among them); it leaves \<open>isPlayingRef\<close> as it was.
  No liveness or generation check guards the completion callback: when a source that
  was started before the teardown ends afterwards, its callback runs \<open>playNextInQueue\<close>
  as ever. On the queue that the teardown emptied it starts no buffer, and it sets
  \<open>isPlayingRef\<close> and \<open>isAiSpeaking\<close> to false and calls \<open>onAiSpeakingChange(false)\<close>.
\<close>

theorem teardown_then_callback:
  "playbackQueueRef (stopCapture opts s) = []
   \<and> playbackContextRef (stopCapture opts s) = None
   \<and> audioContextRef (stopCapture opts s) = None
   \<and> (\<forall>c. playbackContextRef s = Some c \<or> audioContextRef s = Some c \<longrightarrow>
          CloseAudioContext c \<in> set (effects (stopCapture opts s)))
   \<and> isPlayingRef (stopCapture opts s) = isPlayingRef s
   \<and> playNextInQueue opts' ctx now (stopCapture opts s) =
       (stopCapture opts s)\<lparr>isPlayingRef := False, isAiSpeaking := False,
          effects := effects (stopCapture opts s) @
            (if onAiSpeakingChange opts' then [AiSpeakingChange False] else [])\<rparr>
   \<and> scheduled (effects (playNextInQueue opts' ctx now (stopCapture opts s))) =
       scheduled (effects (stopCapture opts s))"
proof (intro conjI allI impI)
  fix c assume "playbackContextRef s = Some c \<or> audioContextRef s = Some c"
  then show "CloseAudioContext c \<in> set (effects (stopCapture opts s))"
    using stopCapture_closes by blast
next
  show eq: "playNextInQueue opts' ctx now (stopCapture opts s) =
       (stopCapture opts s)\<lparr>isPlayingRef := False, isAiSpeaking := False,
          effects := effects (stopCapture opts s) @
            (if onAiSpeakingChange opts' then [AiSpeakingChange False] else [])\<rparr>"
    by (rule playNextInQueue_empty) (rule stopCapture_fields)
  show "scheduled (effects (playNextInQueue opts' ctx now (stopCapture opts s))) =
       scheduled (effects (stopCapture opts s))"
    unfolding eq by (simp add: scheduled_append)
qed (rule stopCapture_fields)+

theorem teardown_then_callback_witness:
  "CloseAudioContext 0 \<in> set (effects (stopCapture
       \<lparr>isConnected_option = True, onUserSpeakingChange = False, onAiSpeakingChange = True\<rparr>
       (audio_run [PlayAudioChunk \<lparr>isConnected_option = True, onUserSpeakingChange = False,
                     onAiSpeakingChange = True\<rparr> [0, 0, 0, 0] None 0] initial_audio_hook)))
   \<and> isPlayingRef (stopCapture
       \<lparr>isConnected_option = True, onUserSpeakingChange = False, onAiSpeakingChange = True\<rparr>
       (audio_run [PlayAudioChunk \<lparr>isConnected_option = True, onUserSpeakingChange = False,
                     onAiSpeakingChange = True\<rparr> [0, 0, 0, 0] None 0] initial_audio_hook))
   \<and> playbackQueueRef (stopCapture
       \<lparr>isConnected_option = True, onUserSpeakingChange = False, onAiSpeakingChange = True\<rparr>
       (audio_run [PlayAudioChunk \<lparr>isConnected_option = True, onUserSpeakingChange = False,
                     onAiSpeakingChange = True\<rparr> [0, 0, 0, 0] None 0] initial_audio_hook)) = []"
proof -
  let ?opts = "\<lparr>isConnected_option = True, onUserSpeakingChange = False,
                 onAiSpeakingChange = True\<rparr>"
  let ?s = "audio_run [PlayAudioChunk ?opts [0, 0, 0, 0] None 0] initial_audio_hook"
  have s: "playbackContextRef ?s = Some 0" "isPlayingRef ?s"
    by (simp_all add: initial_audio_hook_def audio_defs decodeChunk_def
          CAPTURE_SAMPLE_RATE_def Let_def)
  note t = teardown_then_callback [of ?opts ?s ?opts 0 1]
  have a: "CloseAudioContext 0 \<in> set (effects (stopCapture ?opts ?s))"
    using t s(1) by blast
  have b: "isPlayingRef (stopCapture ?opts ?s)"
    using t s(2) by blast
  have c: "playbackQueueRef (stopCapture ?opts ?s) = []"
    using t by blast
  from a b c show ?thesis
    by (intro conjI)
qed

text \<open>
  C7 as stated fails: a source is started, the hook is torn down, and the completion
  callback of the source then changes the state and calls \<open>onAiSpeakingChange\<close>.
\<close>

theorem teardown_callback_counterexample:
  "playNextInQueue
      \<lparr>isConnected_option = True, onUserSpeakingChange = False, onAiSpeakingChange = True\<rparr>
      0 1
      (audio_run
        [PlayAudioChunk \<lparr>isConnected_option = True, onUserSpeakingChange = False,
                          onAiSpeakingChange = True\<rparr> [0, 0, 0, 0] None 0,
         StopCapture \<lparr>isConnected_option = True, onUserSpeakingChange = False,
                       onAiSpeakingChange = True\<rparr>]
        initial_audio_hook)
   \<noteq> audio_run
        [PlayAudioChunk \<lparr>isConnected_option = True, onUserSpeakingChange = False,
                          onAiSpeakingChange = True\<rparr> [0, 0, 0, 0] None 0,
         StopCapture \<lparr>isConnected_option = True, onUserSpeakingChange = False,
                       onAiSpeakingChange = True\<rparr>]
        initial_audio_hook
   \<and> effects (playNextInQueue
      \<lparr>isConnected_option = True, onUserSpeakingChange = False, onAiSpeakingChange = True\<rparr>
      0 1
      (audio_run
        [PlayAudioChunk \<lparr>isConnected_option = True, onUserSpeakingChange = False,
                          onAiSpeakingChange = True\<rparr> [0, 0, 0, 0] None 0,
         StopCapture \<lparr>isConnected_option = True, onUserSpeakingChange = False,
                       onAiSpeakingChange = True\<rparr>]
        initial_audio_hook))
     = effects (audio_run
        [PlayAudioChunk \<lparr>isConnected_option = True, onUserSpeakingChange = False,
                          onAiSpeakingChange = True\<rparr> [0, 0, 0, 0] None 0,
         StopCapture \<lparr>isConnected_option = True, onUserSpeakingChange = False,
                       onAiSpeakingChange = True\<rparr>]
        initial_audio_hook) @ [AiSpeakingChange False]
   \<and> isPlayingRef (audio_run
        [PlayAudioChunk \<lparr>isConnected_option = True, onUserSpeakingChange = False,
                          onAiSpeakingChange = True\<rparr> [0, 0, 0, 0] None 0,
         StopCapture \<lparr>isConnected_option = True, onUserSpeakingChange = False,
                       onAiSpeakingChange = True\<rparr>]
        initial_audio_hook)
   \<and> \<not> isPlayingRef (playNextInQueue
      \<lparr>isConnected_option = True, onUserSpeakingChange = False, onAiSpeakingChange = True\<rparr>
      0 1
      (audio_run
        [PlayAudioChunk \<lparr>isConnected_option = True, onUserSpeakingChange = False,
                          onAiSpeakingChange = True\<rparr> [0, 0, 0, 0] None 0,
         StopCapture \<lparr>isConnected_option = True, onUserSpeakingChange = False,
                       onAiSpeakingChange = True\<rparr>]
        initial_audio_hook))"
proof -
  let ?opts = "\<lparr>isConnected_option = True, onUserSpeakingChange = False,
                 onAiSpeakingChange = True\<rparr>"
  let ?s = "audio_run [PlayAudioChunk ?opts [0, 0, 0, 0] None 0, StopCapture ?opts]
              initial_audio_hook"
  have p: "isPlayingRef ?s"
    by (simp add: initial_audio_hook_def audio_defs decodeChunk_def
          CAPTURE_SAMPLE_RATE_def Let_def)
  have q: "playbackQueueRef ?s = []"
    by (simp add: stopCapture_fields)
  have e: "effects (playNextInQueue ?opts 0 1 ?s) = effects ?s @ [AiSpeakingChange False]"
    and n: "\<not> isPlayingRef (playNextInQueue ?opts 0 1 ?s)"
    unfolding playNextInQueue_empty [OF q] by simp_all
  from p n have "playNextInQueue ?opts 0 1 ?s \<noteq> ?s"
    by metis
  with e p n show ?thesis
    by (intro conjI)
qed

subsection \<open>Decoding a frame\<close>

lemma Int16Array_length: "length (Int16Array bs) = length bs div 2"
  by (induction bs rule: Int16Array.induct) simp_all

lemma Int16Array_nth:
  "i < length bs div 2 \<Longrightarrow> Int16Array bs ! i = int16_le (bs ! (2 * i)) (bs ! (2 * i + 1))"
proof (induction bs arbitrary: i rule: Int16Array.induct)
  case (1 b0 b1 bs)
  then show ?case by (cases i) simp_all
qed simp_all

lemma Float32Array_length: "length (Float32Array bs) = length bs div 4"
  by (induction bs rule: Float32Array.induct) simp_all

lemma Float32Array_nth:
  "i < length bs div 4 \<Longrightarrow>
     Float32Array bs ! i =
       float32_le (bs ! (4 * i)) (bs ! (4 * i + 1)) (bs ! (4 * i + 2)) (bs ! (4 * i + 3))"
proof (induction bs arbitrary: i rule: Float32Array.induct)
  case (1 b0 b1 b2 b3 bs)
  then show ?case by (cases i) (simp_all add: add.commute)
qed simp_all


lemma decodeChunk_cases:
  "length data mod 4 = 0 \<Longrightarrow> decodeChunk data = Some (map Float32Bits (Float32Array data))"
  "length data mod 4 \<noteq> 0 \<Longrightarrow> length data mod 2 = 0 \<Longrightarrow>
     decodeChunk data = Some (map (\<lambda>v. Exact (real_of_int (sint v) / 32768)) (Int16Array data))"
  "length data mod 2 \<noteq> 0 \<Longrightarrow> decodeChunk data = None"
proof -
  show "length data mod 4 = 0 \<Longrightarrow> decodeChunk data = Some (map Float32Bits (Float32Array data))"
    by (simp add: decodeChunk_def)
  show "length data mod 4 \<noteq> 0 \<Longrightarrow> length data mod 2 = 0 \<Longrightarrow>
     decodeChunk data = Some (map (\<lambda>v. Exact (real_of_int (sint v) / 32768)) (Int16Array data))"
    by (simp add: decodeChunk_def)
  assume odd: "length data mod 2 \<noteq> 0"
  then have "length data mod 4 \<noteq> 0"
    by presburger
  with odd show "decodeChunk data = None"
    by (simp add: decodeChunk_def)
qed

text \<open>A frame that is not decoded leaves the queue, the schedule and the playing state alone.\<close>

lemma playAudioChunk_dropped:
  assumes "decodeChunk data = None"
  shows "fst (playAudioChunk opts data rate now s) = None"
    and "playbackQueueRef (snd (playAudioChunk opts data rate now s)) = playbackQueueRef s"
    and "scheduled (effects (snd (playAudioChunk opts data rate now s))) = scheduled (effects s)"
    and "nextPlayTimeRef (snd (playAudioChunk opts data rate now s)) = nextPlayTimeRef s"
    and "isPlayingRef (snd (playAudioChunk opts data rate now s)) = isPlayingRef s"
    and "isAiSpeaking (snd (playAudioChunk opts data rate now s)) = isAiSpeaking s"
    and "last (effects (snd (playAudioChunk opts data rate now s))) =
           ConsoleWarn ''Unknown audio format, skipping chunk''"
  using assms
  by (simp_all add: playAudioChunk_def emit_def scheduled_append split: option.splits)

lemma playAudioChunk_enqueues:
  assumes "decodeChunk data = Some samples" "samples \<noteq> []"
    and "0 < (case rate of None \<Rightarrow> CAPTURE_SAMPLE_RATE | Some r \<Rightarrow> r)"
  defines "buffer \<equiv> \<lparr>channelData = samples,
                      sampleRate = (case rate of None \<Rightarrow> CAPTURE_SAMPLE_RATE | Some r \<Rightarrow> r)\<rparr>"
  shows "fst (playAudioChunk opts data rate now s) = None"
    and "playbackQueueRef (snd (playAudioChunk opts data rate now s)) =
           (if isPlayingRef s then playbackQueueRef s @ [buffer]
            else tl (playbackQueueRef s @ [buffer]))"
proof -
  have cb: "createBuffer (length samples) (case rate of None \<Rightarrow> CAPTURE_SAMPLE_RATE | Some r \<Rightarrow> r)
              = Inr \<lparr>channelData = replicate (length samples) (Exact 0),
                     sampleRate = (case rate of None \<Rightarrow> CAPTURE_SAMPLE_RATE | Some r \<Rightarrow> r)\<rparr>"
    using assms(2,3) by (simp add: createBuffer_def)
  show "fst (playAudioChunk opts data rate now s) = None"
    using assms(1) cb
    by (simp add: playAudioChunk_def Let_def split: option.splits prod.splits)
  show "playbackQueueRef (snd (playAudioChunk opts data rate now s)) =
           (if isPlayingRef s then playbackQueueRef s @ [buffer]
            else tl (playbackQueueRef s @ [buffer]))"
    using assms(1) cb unfolding buffer_def
    by (cases "playbackQueueRef s")
       (simp_all add: playAudioChunk_def playNextInQueue_def setAiSpeaking_def emit_def Let_def
          split: option.splits)
qed

text \<open>
  C2. \<open>playAudioChunk\<close> classifies a frame by its byte length, in this order. A length
  divisible by 4 decodes as 32-bit floats: sample \<open>i\<close> is the float whose bits are the
  bytes \<open>4i .. 4i+3\<close>. Otherwise a length divisible by 2 decodes as 16-bit signed
  integers, each divided by 32768: sample \<open>i\<close> comes from the bytes \<open>2i, 2i+1\<close>. In both
  cases the decoded samples (when there are any, at a positive rate) become a buffer at
  the end of the queue, from which the head is started at once when nothing is playing.
  Any other length is dropped: the call returns without an exception, the warning is
  the last thing logged, and the queue, the scheduled buffers and the playing state are
  as before.
\<close>

theorem playAudioChunk_classification:
  "(length data mod 4 = 0 \<longrightarrow>
      decodeChunk data = Some (map Float32Bits (Float32Array data))
      \<and> length (Float32Array data) = length data div 4
      \<and> (\<forall>i < length data div 4.
            Float32Array data ! i =
              float32_le (data ! (4 * i)) (data ! (4 * i + 1)) (data ! (4 * i + 2))
                (data ! (4 * i + 3))))
   \<and> (length data mod 4 \<noteq> 0 \<and> length data mod 2 = 0 \<longrightarrow>
      decodeChunk data =
        Some (map (\<lambda>v. Exact (real_of_int (sint v) / 32768)) (Int16Array data))
      \<and> length (Int16Array data) = length data div 2
      \<and> (\<forall>i < length data div 2.
            Int16Array data ! i = int16_le (data ! (2 * i)) (data ! (2 * i + 1))))
   \<and> (\<forall>samples. decodeChunk data = Some samples \<and> samples \<noteq> []
         \<and> 0 < (case rate of None \<Rightarrow> CAPTURE_SAMPLE_RATE | Some r \<Rightarrow> r) \<longrightarrow>
      fst (playAudioChunk opts data rate now s) = None
      \<and> playbackQueueRef (snd (playAudioChunk opts data rate now s)) =
          (if isPlayingRef s
           then playbackQueueRef s @
             [\<lparr>channelData = samples,
               sampleRate = (case rate of None \<Rightarrow> CAPTURE_SAMPLE_RATE | Some r \<Rightarrow> r)\<rparr>]
           else tl (playbackQueueRef s @
             [\<lparr>channelData = samples,
               sampleRate = (case rate of None \<Rightarrow> CAPTURE_SAMPLE_RATE | Some r \<Rightarrow> r)\<rparr>])))
   \<and> (length data mod 4 \<noteq> 0 \<and> length data mod 2 \<noteq> 0 \<longrightarrow>
      decodeChunk data = None
      \<and> fst (playAudioChunk opts data rate now s) = None
      \<and> playbackQueueRef (snd (playAudioChunk opts data rate now s)) = playbackQueueRef s
      \<and> scheduled (effects (snd (playAudioChunk opts data rate now s))) = scheduled (effects s)
      \<and> nextPlayTimeRef (snd (playAudioChunk opts data rate now s)) = nextPlayTimeRef s
      \<and> isPlayingRef (snd (playAudioChunk opts data rate now s)) = isPlayingRef s
      \<and> isAiSpeaking (snd (playAudioChunk opts data rate now s)) = isAiSpeaking s
      \<and> last (effects (snd (playAudioChunk opts data rate now s))) =
          ConsoleWarn ''Unknown audio format, skipping chunk'')"
proof (intro conjI allI impI)
  fix i assume "i < length data div 4"
  then show "Float32Array data ! i =
              float32_le (data ! (4 * i)) (data ! (4 * i + 1)) (data ! (4 * i + 2))
                (data ! (4 * i + 3))"
    by (rule Float32Array_nth)
next
  fix i assume "i < length data div 2"
  then show "Int16Array data ! i = int16_le (data ! (2 * i)) (data ! (2 * i + 1))"
    by (rule Int16Array_nth)
next
  fix samples
  assume a: "decodeChunk data = Some samples \<and> samples \<noteq> []
         \<and> 0 < (case rate of None \<Rightarrow> CAPTURE_SAMPLE_RATE | Some r \<Rightarrow> r)"
  then have p: "decodeChunk data = Some samples" "samples \<noteq> []"
    "0 < (case rate of None \<Rightarrow> CAPTURE_SAMPLE_RATE | Some r \<Rightarrow> r)"
    by simp_all
  show "fst (playAudioChunk opts data rate now s) = None"
    by (rule playAudioChunk_enqueues(1) [OF p])
  show "playbackQueueRef (snd (playAudioChunk opts data rate now s)) =
          (if isPlayingRef s
           then playbackQueueRef s @
             [\<lparr>channelData = samples,
               sampleRate = (case rate of None \<Rightarrow> CAPTURE_SAMPLE_RATE | Some r \<Rightarrow> r)\<rparr>]
           else tl (playbackQueueRef s @
             [\<lparr>channelData = samples,
               sampleRate = (case rate of None \<Rightarrow> CAPTURE_SAMPLE_RATE | Some r \<Rightarrow> r)\<rparr>]))"
    by (rule playAudioChunk_enqueues(2) [OF p])
next
  assume a: "length data mod 4 \<noteq> 0 \<and> length data mod 2 \<noteq> 0"
  then show none: "decodeChunk data = None"
    by (simp add: decodeChunk_cases(3))
  show "fst (playAudioChunk opts data rate now s) = None"
    and "playbackQueueRef (snd (playAudioChunk opts data rate now s)) = playbackQueueRef s"
    and "scheduled (effects (snd (playAudioChunk opts data rate now s))) = scheduled (effects s)"
    and "nextPlayTimeRef (snd (playAudioChunk opts data rate now s)) = nextPlayTimeRef s"
    and "isPlayingRef (snd (playAudioChunk opts data rate now s)) = isPlayingRef s"
    and "isAiSpeaking (snd (playAudioChunk opts data rate now s)) = isAiSpeaking s"
    and "last (effects (snd (playAudioChunk opts data rate now s))) =
          ConsoleWarn ''Unknown audio format, skipping chunk''"
    by (rule playAudioChunk_dropped [OF none])+
qed (simp_all add: decodeChunk_cases Float32Array_length Int16Array_length)

theorem playAudioChunk_classification_witness:
  "decodeChunk [0, 0, 128, 63] = Some [Float32Bits 0x3F800000]
   \<and> decodeChunk [0, 128] = Some [Exact (- 1)]
   \<and> playbackQueueRef (snd (playAudioChunk
        \<lparr>isConnected_option = True, onUserSpeakingChange = False, onAiSpeakingChange = True\<rparr>
        [0, 128] None 0 (initial_audio_hook\<lparr>isPlayingRef := True\<rparr>))) =
       [\<lparr>channelData = [Exact (- 1)], sampleRate = 16000\<rparr>]
   \<and> decodeChunk [0, 128, 5] = None
   \<and> snd (playAudioChunk
        \<lparr>isConnected_option = True, onUserSpeakingChange = False, onAiSpeakingChange = True\<rparr>
        [0, 128, 5] None 0 initial_audio_hook) =
       initial_audio_hook\<lparr>playbackContextRef := Some 0, nextHandle := 1,
         effects := [NewAudioContext 0, ConsoleWarn ''Unknown audio format, skipping chunk'']\<rparr>"
proof -
  let ?opts = "\<lparr>isConnected_option = True, onUserSpeakingChange = False,
                 onAiSpeakingChange = True\<rparr>"
  let ?playing = "initial_audio_hook\<lparr>isPlayingRef := True\<rparr>"
  note c4 = playAudioChunk_classification [of "[0, 0, 128, 63]" None ?opts 0 initial_audio_hook]
  note c2 = playAudioChunk_classification [of "[0, 128]" None ?opts 0 ?playing]
  note c3 = playAudioChunk_classification [of "[0, 128, 5]" None ?opts 0 initial_audio_hook]
  have l4: "length [0, 0, 128, 63 :: byte] mod 4 = 0"
    and l2: "length [0, 128 :: byte] mod 4 \<noteq> 0 \<and> length [0, 128 :: byte] mod 2 = 0"
    and l3: "length [0, 128, 5 :: byte] mod 4 \<noteq> 0 \<and> length [0, 128, 5 :: byte] mod 2 \<noteq> 0"
    by simp_all
  from c4 l4 have "decodeChunk [0, 0, 128, 63] = Some (map Float32Bits (Float32Array [0, 0, 128, 63]))"
    by blast
  then have a: "decodeChunk [0, 0, 128, 63] = Some [Float32Bits 0x3F800000]"
    by (simp add: float32_le_def)
  from c2 l2 have "decodeChunk [0, 128] =
      Some (map (\<lambda>v. Exact (real_of_int (sint v) / 32768)) (Int16Array [0, 128]))"
    by blast
  then have b: "decodeChunk [0, 128] = Some [Exact (- 1)]"
    by (simp add: int16_le_def)
  have pre: "decodeChunk [0, 128] = Some [Exact (- 1)] \<and> [Exact (- 1)] \<noteq> []
         \<and> 0 < (case None of None \<Rightarrow> CAPTURE_SAMPLE_RATE | Some r \<Rightarrow> r)"
    using b by (simp add: CAPTURE_SAMPLE_RATE_def)
  from c2 pre have "playbackQueueRef (snd (playAudioChunk ?opts [0, 128] None 0 ?playing)) =
          (if isPlayingRef ?playing
           then playbackQueueRef ?playing @
             [\<lparr>channelData = [Exact (- 1)],
               sampleRate = (case None of None \<Rightarrow> CAPTURE_SAMPLE_RATE | Some r \<Rightarrow> r)\<rparr>]
           else tl (playbackQueueRef ?playing @
             [\<lparr>channelData = [Exact (- 1)],
               sampleRate = (case None of None \<Rightarrow> CAPTURE_SAMPLE_RATE | Some r \<Rightarrow> r)\<rparr>]))"
    by blast
  then have c: "playbackQueueRef (snd (playAudioChunk ?opts [0, 128] None 0 ?playing)) =
       [\<lparr>channelData = [Exact (- 1)], sampleRate = 16000\<rparr>]"
    by (simp add: initial_audio_hook_def CAPTURE_SAMPLE_RATE_def)
  from c3 l3 have d: "decodeChunk [0, 128, 5] = None"
    by blast
  have e: "snd (playAudioChunk ?opts [0, 128, 5] None 0 initial_audio_hook) =
       initial_audio_hook\<lparr>playbackContextRef := Some 0, nextHandle := 1,
         effects := [NewAudioContext 0, ConsoleWarn ''Unknown audio format, skipping chunk'']\<rparr>"
    by (simp add: playAudioChunk_def d emit_def initial_audio_hook_def)
  from a b c d e show ?thesis
    by (intro conjI)
qed

subsection \<open>Voice activity\<close>

lemma foldl_squares:
  "foldl (\<lambda>sum s. sum + s * s) a xs = a + (\<Sum>x\<leftarrow>xs. x\<^sup>2)" for a :: real
  by (induction xs arbitrary: a) (simp_all add: power2_eq_square)

lemma loud_iff:
  "loud input \<longleftrightarrow> input \<noteq> [] \<and> sqrt ((\<Sum>x\<leftarrow>input. x\<^sup>2) / real (length input)) > 1 / 100"
  by (simp add: loud_def rms_def volumeThreshold_def foldl_squares)

lemma userSpeakingChanges_append:
  "userSpeakingChanges (es @ es') = userSpeakingChanges es @ userSpeakingChanges es'"
  by (induction es rule: userSpeakingChanges.induct) simp_all

lemma onaudioprocess_loud:
  assumes "loud input"
  shows "lastSpeakTimeRef (snd (onaudioprocess opts ctxRate input now s)) = now"
    and "isUserSpeakingRef (snd (onaudioprocess opts ctxRate input now s))"
    and "isUserSpeaking (snd (onaudioprocess opts ctxRate input now s)) =
           (if isUserSpeakingRef s then isUserSpeaking s else True)"
    and "userSpeakingChanges (effects (snd (onaudioprocess opts ctxRate input now s))) =
           userSpeakingChanges (effects s) @
             (if \<not> isUserSpeakingRef s \<and> onUserSpeakingChange opts then [True] else [])"
  using assms
  by (auto simp: onaudioprocess_def setUserSpeaking_def emit_def Let_def
        userSpeakingChanges_append split: sum.splits)

lemma onaudioprocess_lastSpeakTimeRef:
  "lastSpeakTimeRef (snd (onaudioprocess opts ctxRate input now s)) =
     (if loud input then now else lastSpeakTimeRef s)"
  by (auto simp: onaudioprocess_def setUserSpeaking_def emit_def Let_def split: sum.splits)

lemma checkSilence_timeout:
  assumes "isUserSpeakingRef s" "now - lastSpeakTimeRef s > 300"
  shows "\<not> isUserSpeakingRef (checkSilence opts now s)"
    and "\<not> isUserSpeaking (checkSilence opts now s)"
    and "userSpeakingChanges (effects (checkSilence opts now s)) =
           userSpeakingChanges (effects s) @ (if onUserSpeakingChange opts then [False] else [])"
  using assms
  by (simp_all add: checkSilence_def silenceTimeoutMs_def setUserSpeaking_def emit_def
        userSpeakingChanges_append)

lemma checkSilence_early:
  assumes "now - lastSpeakTimeRef s \<le> 300"
  shows "checkSilence opts now s = s"
  using assms by (simp add: checkSilence_def silenceTimeoutMs_def)

lemma checkSilence_speaking_iff:
  assumes "isUserSpeakingRef s"
  shows "isUserSpeakingRef (checkSilence opts now s) \<longleftrightarrow> now - lastSpeakTimeRef s \<le> 300"
  using assms by (simp add: checkSilence_def silenceTimeoutMs_def setUserSpeaking_def emit_def)

lemma lastSpeakTimeRef_step:
  "lastSpeakTimeRef (audio_step s e) =
     (case e of AudioProcess opts ctxRate input now \<Rightarrow> if loud input then now else lastSpeakTimeRef s
      | _ \<Rightarrow> lastSpeakTimeRef s)"
proof (cases e)
  case (PlayAudioChunk opts data rate now)
  then show ?thesis
    by (auto simp: playAudioChunk_def playNextInQueue_def setAiSpeaking_def emit_def Let_def
          split: option.splits sum.splits list.splits)
next
  case (SourceEnded opts ctx now)
  then show ?thesis
    by (auto simp: playNextInQueue_def setAiSpeaking_def emit_def Let_def split: list.splits)
next
  case (StartCapture opts res)
  then show ?thesis
    by (auto simp: startCapture_def emit_def Let_def split: media_result.splits)
next
  case (AudioProcess opts ctxRate input now)
  then show ?thesis
    by (simp add: onaudioprocess_lastSpeakTimeRef)
next
  case (StopCapture opts)
  then show ?thesis
    by (auto simp: stopCapture_def setUserSpeaking_def emit_def Let_def split: option.splits)
next
  case (SilenceTick opts now)
  then show ?thesis
    by (auto simp: checkSilence_def setUserSpeaking_def emit_def)
qed

lemma lastSpeakTimeRef_run:
  "lastSpeakTimeRef (audio_run evs s) = lastLoudTime (lastSpeakTimeRef s) evs"
proof (induction evs arbitrary: s)
  case Nil
  show ?case by simp
next
  case (Cons e evs)
  have "lastSpeakTimeRef (audio_run (e # evs) s) =
          lastLoudTime (lastSpeakTimeRef (audio_step s e)) evs"
    by (simp only: audio_run_Cons Cons.IH)
  also have "\<dots> = lastLoudTime (lastSpeakTimeRef s) (e # evs)"
    unfolding lastSpeakTimeRef_step by (cases e) simp_all
  finally show ?case .
qed



subsection \<open>startCapture\<close>

text \<open>
  C8. When \<^verbatim>\<open>getUserMedia\<close> rejects (access denied), \<open>startCapture\<close> returns false and
  sets \<open>micPermission\<close> to denied; the only effect is the logged error. The refs of the
  stream, the audio context, the source node and the processor node keep their values
  and the browser creates no object, so from the initial state all four stay null.
\<close>

theorem startCapture_denied:
  "startCapture opts (StreamRejected err) s =
     (False, s\<lparr>micPermission := Denied,
               effects := effects s @ [ConsoleError ''Failed to start audio capture:'' err]\<rparr>)
   \<and> \<not> fst (startCapture opts (StreamRejected err) s)
   \<and> micPermission (snd (startCapture opts (StreamRejected err) s)) = Denied
   \<and> streamRef (snd (startCapture opts (StreamRejected err) s)) = streamRef s
   \<and> audioContextRef (snd (startCapture opts (StreamRejected err) s)) = audioContextRef s
   \<and> sourceRef (snd (startCapture opts (StreamRejected err) s)) = sourceRef s
   \<and> processorRef (snd (startCapture opts (StreamRejected err) s)) = processorRef s
   \<and> nextHandle (snd (startCapture opts (StreamRejected err) s)) = nextHandle s
   \<and> streamRef (snd (startCapture opts (StreamRejected err) initial_audio_hook)) = None
   \<and> audioContextRef (snd (startCapture opts (StreamRejected err) initial_audio_hook)) = None
   \<and> sourceRef (snd (startCapture opts (StreamRejected err) initial_audio_hook)) = None
   \<and> processorRef (snd (startCapture opts (StreamRejected err) initial_audio_hook)) = None
   \<and> effects (snd (startCapture opts (StreamRejected err) initial_audio_hook)) =
        [ConsoleError ''Failed to start audio capture:'' err]"
  by (simp add: startCapture_def emit_def initial_audio_hook_def)

theorem startCapture_denied_witness:
  "\<not> fst (startCapture \<lparr>isConnected_option = True, onUserSpeakingChange = True,
                         onAiSpeakingChange = True\<rparr>
             (StreamRejected NotAllowedError) initial_audio_hook)
   \<and> snd (startCapture \<lparr>isConnected_option = True, onUserSpeakingChange = True,
                         onAiSpeakingChange = True\<rparr>
             (StreamRejected NotAllowedError) initial_audio_hook) =
       initial_audio_hook\<lparr>micPermission := Denied,
         effects := [ConsoleError ''Failed to start audio capture:'' NotAllowedError]\<rparr>"
  using startCapture_denied [of "\<lparr>isConnected_option = True, onUserSpeakingChange = True,
                         onAiSpeakingChange = True\<rparr>" NotAllowedError initial_audio_hook]
  by (simp add: initial_audio_hook_def)


end
